theory Spec2Isabelle
  imports Complex_Main "HOL-Library.Log_Nat" "HOL-Library.AList"
    "HOL-Library.Char_ord" "HOL-Library.List_Lexorder" "HOL-Library.Option_ord"
begin

section \<open>The feedback worker (src/index.ts)\<close>

text \<open>
  The worker answers HTTP requests with the help of three external services: the
  relational store \<open>env.DB\<close>, the key-value cache \<open>env.CACHE\<close> and the model runner
  \<open>env.AI\<close>. Every \<open>await\<close> on one of them may reject. The development threads an
  explicit world (table, cache, log of the calls made so far) through each handler; an
  oracle says which call rejects and what the outside world answers. Requests are handled
  one after the other.

  Strings are lists of 8-bit code units. The columns \<open>user_id\<close>, \<open>ai_themes\<close> and
  \<open>upvotes\<close> of the table are never read or written by the worker and are left out.
\<close>

subsection \<open>Data\<close>

record Feedback =
  fb_id :: nat
  title :: string
  description :: "string option"
  source :: string
  user_email :: "string option"
  sentiment :: "string option"
  category :: "string option"
  created_at :: string
  resolved_at :: "string option"
  priority :: string

datatype error = Error (message: string)

text \<open>What \<open>env.AI.run\<close> resolves to: \<open>undefined\<close>, or an object whose properties
  \<open>label\<close>, \<open>score\<close> and \<open>response\<close> may each be absent. A score is a double, hence a
  rational.\<close>

datatype ai_value =
  AiUndefined
| AiObject (ai_label: "string option") (ai_score: "rat option") (ai_response: "string option")

text \<open>One entry of the log per call on an external service, in the order of the calls.\<close>

datatype call =
  CacheGet string
| CachePut string string nat
| CacheDelete string
| DbQuery string
| DbInsert string
| AiRun string string

text \<open>The table in rowid order; the cache as a list of keys with their value and the
  \<open>expirationTtl\<close> they were stored with (the passage of time, and with it the expiry of an
  entry, is not modelled: an entry stays until it is deleted or overwritten); the log.\<close>

record world =
  rows :: "Feedback list"
  kv :: "(string \<times> string \<times> nat) list"
  trace :: "call list"

text \<open>
  The oracle. \<open>fault n\<close> is the message of the error with which the \<open>n\<close>-th external call
  (counted from 0 over the log) rejects, if it does; \<open>ai_result n\<close> is what the model runner
  resolves to on that call; \<open>sql_datetime n m\<close> is SQLite's \<open>datetime('now', m)\<close> and
  \<open>sql_days_open n t\<close> its \<open>CAST((julianday('now') - julianday(t)) AS INTEGER)\<close> during that
  call; \<open>js_now n\<close> is \<open>new Date().toISOString()\<close> read after \<open>n\<close> calls.
\<close>

record env =
  fault :: "nat \<Rightarrow> string option"
  ai_result :: "nat \<Rightarrow> ai_value"
  sql_datetime :: "nat \<Rightarrow> string \<Rightarrow> string"
  sql_days_open :: "nat \<Rightarrow> string \<Rightarrow> int"
  js_now :: "nat \<Rightarrow> string"

type_synonym 'a io = "world \<Rightarrow> (error + 'a) \<times> world"

record Response =
  status :: nat
  headers :: "(string \<times> string) list"
  body :: string

subsection \<open>Sequencing\<close>

definition resolve :: "'a \<Rightarrow> 'a io" where
  "resolve a w = (Inr a, w)"

definition throw :: "error \<Rightarrow> 'a io" where
  "throw e w = (Inl e, w)"

text \<open>\<open>const x = await m; k x\<close>: a rejection of \<open>m\<close> skips \<open>k\<close>.\<close>

definition await :: "'a io \<Rightarrow> ('a \<Rightarrow> 'b io) \<Rightarrow> 'b io" where
  "await m k w = (case m w of (Inl e, w') \<Rightarrow> (Inl e, w') | (Inr a, w') \<Rightarrow> k a w')"

text \<open>\<open>try { m } catch (error) { h error }\<close>.\<close>

definition try_catch :: "'a io \<Rightarrow> (error \<Rightarrow> 'a io) \<Rightarrow> 'a io" where
  "try_catch m h w = (case m w of (Inl e, w') \<Rightarrow> h e w' | (Inr a, w') \<Rightarrow> (Inr a, w'))"

subsection \<open>The external services\<close>

definition logged :: "call \<Rightarrow> world \<Rightarrow> world" where
  "logged c w = w\<lparr>trace := trace w @ [c]\<rparr>"

definition CACHE_get :: "env \<Rightarrow> string \<Rightarrow> (string option) io" where
  "CACHE_get ev k w =
     (case fault ev (length (trace w)) of
        Some m \<Rightarrow> (Inl (Error m), logged (CacheGet k) w)
      | None \<Rightarrow> (Inr (map_option fst (map_of (kv w) k)), logged (CacheGet k) w))"

definition CACHE_put :: "env \<Rightarrow> string \<Rightarrow> string \<Rightarrow> nat \<Rightarrow> unit io" where
  "CACHE_put ev k v ttl w =
     (case fault ev (length (trace w)) of
        Some m \<Rightarrow> (Inl (Error m), logged (CachePut k v ttl) w)
      | None \<Rightarrow> (Inr (), logged (CachePut k v ttl) (w\<lparr>kv := AList.update k (v, ttl) (kv w)\<rparr>)))"

definition CACHE_delete :: "env \<Rightarrow> string \<Rightarrow> unit io" where
  "CACHE_delete ev k w =
     (case fault ev (length (trace w)) of
        Some m \<Rightarrow> (Inl (Error m), logged (CacheDelete k) w)
      | None \<Rightarrow> (Inr (), logged (CacheDelete k) (w\<lparr>kv := AList.delete k (kv w)\<rparr>)))"

text \<open>A read-only statement: \<open>q\<close> is what the statement named \<open>name\<close> computes from the
  table during the call numbered by its first argument.\<close>

definition DB_query :: "env \<Rightarrow> string \<Rightarrow> (nat \<Rightarrow> Feedback list \<Rightarrow> 'a) \<Rightarrow> 'a io" where
  "DB_query ev name q w =
     (case fault ev (length (trace w)) of
        Some m \<Rightarrow> (Inl (Error m), logged (DbQuery name) w)
      | None \<Rightarrow> (Inr (q (length (trace w)) (rows w)), logged (DbQuery name) w))"

definition AI_run :: "env \<Rightarrow> string \<Rightarrow> string \<Rightarrow> ai_value io" where
  "AI_run ev model input w =
     (case fault ev (length (trace w)) of
        Some m \<Rightarrow> (Inl (Error m), logged (AiRun model input) w)
      | None \<Rightarrow> (Inr (ai_result ev (length (trace w))), logged (AiRun model input) w))"

subsection \<open>Strings\<close>

text \<open>\<open>s.includes(t)\<close>: \<open>t\<close> occurs in \<open>s\<close> as a contiguous run.\<close>

fun includes_str :: "string \<Rightarrow> string \<Rightarrow> bool" where
  "includes_str [] t = (t = [])"
| "includes_str (c # s) t = (take (length t) (c # s) = t \<or> includes_str s t)"

text \<open>\<open>toLowerCase\<close> on 8-bit code units: A-Z and the upper-case letters of Latin-1.\<close>

definition lower_char :: "char \<Rightarrow> char" where
  "lower_char c =
     (let n = (of_char c :: nat)
      in if (65 \<le> n \<and> n \<le> 90) \<or> (192 \<le> n \<and> n \<le> 222 \<and> n \<noteq> 215)
         then char_of (n + 32) else c)"

definition toLowerCase :: "string \<Rightarrow> string" where
  "toLowerCase s = map lower_char s"

definition substring :: "string \<Rightarrow> nat \<Rightarrow> nat \<Rightarrow> string" where
  "substring s a b = drop (min a b) (take (max a b) s)"

subsection \<open>analyzeSentiment\<close>

text \<open>Reading a property of \<open>undefined\<close> throws a TypeError.\<close>

definition prop_label :: "ai_value \<Rightarrow> (string option) io" where
  "prop_label v =
     (case v of AiUndefined \<Rightarrow> throw (Error ''Cannot read properties of undefined'')
      | AiObject l s r \<Rightarrow> resolve l)"

definition prop_score :: "ai_value \<Rightarrow> (rat option) io" where
  "prop_score v =
     (case v of AiUndefined \<Rightarrow> throw (Error ''Cannot read properties of undefined'')
      | AiObject l s r \<Rightarrow> resolve s)"

definition prop_response :: "ai_value \<Rightarrow> (string option) io" where
  "prop_response v =
     (case v of AiUndefined \<Rightarrow> throw (Error ''Cannot read properties of undefined'')
      | AiObject l s r \<Rightarrow> resolve r)"

text \<open>\<open>x || d\<close> on an optional string: absent and empty are falsy.\<close>

definition or_string :: "string option \<Rightarrow> string \<Rightarrow> string" where
  "or_string x d = (case x of None \<Rightarrow> d | Some s \<Rightarrow> if s = [] then d else s)"

definition or_number :: "rat option \<Rightarrow> rat \<Rightarrow> rat" where
  "or_number x d = (case x of None \<Rightarrow> d | Some s \<Rightarrow> if s = 0 then d else s)"

text \<open>The double written \<open>0.6\<close>.\<close>

definition double_0_6 :: rat where
  "double_0_6 = 5404319552844595 / 9007199254740992"

definition positive_keywords :: "string list" where
  "positive_keywords = [''great'', ''love'', ''awesome'', ''excellent'']"

definition negative_keywords :: "string list" where
  "negative_keywords = [''fail'', ''error'', ''broken'', ''slow'', ''issue'', ''problem'']"

text \<open>The body of the \<open>catch\<close> block.\<close>

definition keyword_sentiment :: "string \<Rightarrow> string" where
  "keyword_sentiment text =
     (let lowerText = toLowerCase text
      in if includes_str lowerText ''great'' \<or> includes_str lowerText ''love''
            \<or> includes_str lowerText ''awesome'' \<or> includes_str lowerText ''excellent''
         then ''positive''
         else if includes_str lowerText ''fail'' \<or> includes_str lowerText ''error''
            \<or> includes_str lowerText ''broken'' \<or> includes_str lowerText ''slow''
            \<or> includes_str lowerText ''issue'' \<or> includes_str lowerText ''problem''
         then ''negative''
         else ''neutral'')"

definition analyzeSentiment :: "env \<Rightarrow> string \<Rightarrow> string io" where
  "analyzeSentiment ev text =
     try_catch
       (await (AI_run ev ''@cf/huggingface/distilbert-sst-2-int8'' (substring text 0 500))
          (\<lambda>aiResponse.
           await (prop_label aiResponse) (\<lambda>l.
           await (prop_score aiResponse) (\<lambda>s.
             let label = or_string l ''NEGATIVE''; score = or_number s 0
             in if label = ''POSITIVE'' \<and> score > double_0_6 then resolve ''positive''
                else if label = ''NEGATIVE'' \<and> score > double_0_6 then resolve ''negative''
                else resolve ''neutral''))))
       (\<lambda>error. resolve (keyword_sentiment text))"

text \<open>The fallback in the words of the specification: lower-case the text; positive if
  it contains any positive keyword, else negative if it contains any negative keyword,
  else neutral.\<close>

definition fallback_spec :: "string \<Rightarrow> string" where
  "fallback_spec text =
     (if \<exists>k \<in> set positive_keywords. includes_str (toLowerCase text) k then ''positive''
      else if \<exists>k \<in> set negative_keywords. includes_str (toLowerCase text) k then ''negative''
      else ''neutral'')"

subsection \<open>JSON.stringify\<close>

text \<open>The values the worker serialises: \<open>null\<close>, integers, strings, arrays and objects
  with their properties in insertion order.\<close>

datatype json = JNull | JNum int | JStr string | JArr "json list" | JObj "(string \<times> json) list"

definition digit_char :: "nat \<Rightarrow> char" where
  "digit_char d = char_of (48 + d)"

fun show_nat :: "nat \<Rightarrow> string" where
  "show_nat n = (if n < 10 then [digit_char n] else show_nat (n div 10) @ [digit_char (n mod 10)])"

declare show_nat.simps [simp del]

definition show_int :: "int \<Rightarrow> string" where
  "show_int i = (if i < 0 then CHR ''-'' # show_nat (nat (- i)) else show_nat (nat i))"

definition hex_char :: "nat \<Rightarrow> char" where
  "hex_char d = (if d < 10 then char_of (48 + d) else char_of (87 + d))"

text \<open>QuoteJSONString on one code unit: the quote, the backslash and the control
  characters are escaped.\<close>

definition quote_char :: "char \<Rightarrow> string" where
  "quote_char c =
     (let n = (of_char c :: nat)
      in if n = 34 then [CHR 0x5C, CHR 0x22]
         else if n = 92 then [CHR 0x5C, CHR 0x5C]
         else if n = 8 then [CHR 0x5C, CHR ''b'']
         else if n = 9 then [CHR 0x5C, CHR ''t'']
         else if n = 10 then [CHR 0x5C, CHR ''n'']
         else if n = 12 then [CHR 0x5C, CHR ''f'']
         else if n = 13 then [CHR 0x5C, CHR ''r'']
         else if n < 32 then [CHR 0x5C, CHR ''u'', CHR ''0'', CHR ''0'', hex_char (n div 16), hex_char (n mod 16)]
         else [c])"

definition quote_string :: "string \<Rightarrow> string" where
  "quote_string s = CHR 0x22 # concat (map quote_char s) @ [CHR 0x22]"

text \<open>\<open>xs.join(sep)\<close>.\<close>

fun join :: "string list \<Rightarrow> string \<Rightarrow> string" where
  "join [] sep = []"
| "join [x] sep = x"
| "join (x # y # ys) sep = x @ sep @ join (y # ys) sep"

fun JSON_stringify :: "json \<Rightarrow> string" where
  "JSON_stringify JNull = ''null''"
| "JSON_stringify (JNum i) = show_int i"
| "JSON_stringify (JStr s) = quote_string s"
| "JSON_stringify (JArr xs) = ''['' @ join (map JSON_stringify xs) '','' @ '']''"
| "JSON_stringify (JObj ps) =
     ''{'' @ join (map (\<lambda>p. quote_string (fst p) @ '':'' @ JSON_stringify (snd p)) ps) '','' @ ''}''"

definition json_of_text :: "string option \<Rightarrow> json" where
  "json_of_text x = (case x of None \<Rightarrow> JNull | Some s \<Rightarrow> JStr s)"

subsection \<open>Responses\<close>

text \<open>\<open>{ ...base, ...ext }\<close>: a later property overwrites an earlier one in place.\<close>

definition spread :: "(string \<times> string) list \<Rightarrow> (string \<times> string) list \<Rightarrow> (string \<times> string) list" where
  "spread base ext = fold (\<lambda>p. AList.update (fst p) (snd p)) ext base"

definition json_headers :: "(string \<times> string) list \<Rightarrow> (string \<times> string) list" where
  "json_headers corsHeaders = spread [(''Content-Type'', ''application/json'')] corsHeaders"

definition json_response :: "string \<Rightarrow> (string \<times> string) list \<Rightarrow> Response" where
  "json_response b corsHeaders = \<lparr>status = 200, headers = json_headers corsHeaders, body = b\<rparr>"

text \<open>\<open>if (cached)\<close>: \<open>null\<close> and the empty string are falsy.\<close>

definition truthy :: "string option \<Rightarrow> bool" where
  "truthy x = (case x of None \<Rightarrow> False | Some s \<Rightarrow> s \<noteq> [])"

subsection \<open>Numbers\<close>

text \<open>
  A JavaScript number is a finite double, an infinity or \<open>NaN\<close>. A finite double is a
  rational; an arithmetic operation is the exact operation followed by rounding to the
  nearest double, ties to the even significand (53 bits, least exponent -1022), and a
  result that rounds to magnitude \<open>2 ^ 1024\<close> or more is an infinity. The sign of a zero
  is not modelled: every zero is \<open>+0\<close>.
\<close>

datatype number = Finite rat | PosInfinity | NegInfinity | NaN

definition pow2 :: "int \<Rightarrow> rat" where
  "pow2 e = (if 0 \<le> e then 2 ^ nat e else 1 / 2 ^ nat (- e))"

text \<open>The binary exponent of a positive rational: \<open>pow2 (expo a) \<le> a < pow2 (expo a + 1)\<close>.\<close>

definition expo :: "rat \<Rightarrow> int" where
  "expo a = (if 1 \<le> a then bitlen \<lfloor>a\<rfloor> - 1 else - bitlen (\<lceil>1 / a\<rceil> - 1))"

definition round_even :: "rat \<Rightarrow> int" where
  "round_even x =
     (let f = \<lfloor>x\<rfloor>; d = x - of_int f
      in if d < 1 / 2 then f else if 1 / 2 < d then f + 1 else if even f then f else f + 1)"

text \<open>Rounding to 53 significant bits, the exponent not bounded above.\<close>

definition double_of :: "rat \<Rightarrow> rat" where
  "double_of q =
     (if q = 0 then 0
      else let a = \<bar>q\<bar>; e = max (expo a) (- 1022) - 52
           in sgn q * of_int (round_even (a / pow2 e)) * pow2 e)"

definition round_double :: "rat \<Rightarrow> number" where
  "round_double q =
     (let r = double_of q
      in if 2 ^ 1024 \<le> \<bar>r\<bar> then (if 0 < q then PosInfinity else NegInfinity) else Finite r)"

text \<open>\<open>a + b\<close>\<close>

fun dadd :: "number \<Rightarrow> number \<Rightarrow> number" where
  "dadd (Finite a) (Finite b) = round_double (a + b)"
| "dadd NaN y = NaN"
| "dadd x NaN = NaN"
| "dadd PosInfinity NegInfinity = NaN"
| "dadd NegInfinity PosInfinity = NaN"
| "dadd PosInfinity y = PosInfinity"
| "dadd NegInfinity y = NegInfinity"
| "dadd x PosInfinity = PosInfinity"
| "dadd x NegInfinity = NegInfinity"

text \<open>\<open>a / b\<close>: a division by zero is no error; \<open>0 / 0\<close> is \<open>NaN\<close> and any other
  number over zero an infinity.\<close>

fun ddiv :: "number \<Rightarrow> number \<Rightarrow> number" where
  "ddiv (Finite a) (Finite b) =
     (if b = 0 then (if a = 0 then NaN else if 0 < a then PosInfinity else NegInfinity)
      else round_double (a / b))"
| "ddiv NaN y = NaN"
| "ddiv x NaN = NaN"
| "ddiv (Finite a) y = Finite 0"
| "ddiv PosInfinity (Finite b) = (if b < 0 then NegInfinity else PosInfinity)"
| "ddiv NegInfinity (Finite b) = (if b < 0 then PosInfinity else NegInfinity)"
| "ddiv x y = NaN"

text \<open>\<open>x.toFixed(1)\<close>; for a finite \<open>x\<close> with \<open>\<bar>x\<bar> < 10 ^ 21\<close>: the integer \<open>n\<close> with
  \<open>n / 10\<close> nearest to \<open>\<bar>x\<bar>\<close>, the larger one of two, printed with a point before its last
  digit.\<close>

fun toFixed1 :: "number \<Rightarrow> string" where
  "toFixed1 NaN = ''NaN''"
| "toFixed1 PosInfinity = ''Infinity''"
| "toFixed1 NegInfinity = ''-Infinity''"
| "toFixed1 (Finite x) =
     (let n = nat \<lfloor>10 * \<bar>x\<bar> + 1 / 2\<rfloor>
      in (if x < 0 then [CHR ''-''] else []) @ show_nat (n div 10) @ [CHR ''.''] @ show_nat (n mod 10))"

subsection \<open>The statements sent to the store\<close>

text \<open>
  Each statement is modelled by what SQLite computes from the table, given in rowid
  order. The schema has an index on each of \<open>user_email\<close>, \<open>created_at\<close> and
  \<open>resolved_at\<close>. Where SQL leaves an order open the model follows what SQLite does on
  this schema:
  \<^item> \<open>ORDER BY created_at DESC\<close> walks the index backwards: of two rows of equal time the
    one of larger rowid comes first; \<open>ORDER BY created_at ASC\<close> walks it forwards;
  \<^item> a \<open>GROUP BY\<close> under a one-term \<open>ORDER BY ... DESC\<close> takes over the descending
    order: the groups are visited in descending key order, the rows of a group in rowid
    order, and a bare column of a group is read from its first row;
  \<^item> the sort of the groups by their count is stable.
\<close>

definition group_by :: "('r \<Rightarrow> 'k::linorder) \<Rightarrow> 'r list \<Rightarrow> ('k \<times> 'r list) list" where
  "group_by key rs =
     map (\<lambda>k. (k, filter (\<lambda>r. key r = k) rs)) (rev (sort (remdups (map key rs))))"

definition order_by_asc :: "('r \<Rightarrow> 'k::linorder) \<Rightarrow> 'r list \<Rightarrow> 'r list" where
  "order_by_asc key rs = sort_key key rs"

text \<open>Descending, rows of equal key in the order they arrive in.\<close>

definition order_by_desc :: "('r \<Rightarrow> 'k::linorder) \<Rightarrow> 'r list \<Rightarrow> 'r list" where
  "order_by_desc key rs = rev (sort_key key (rev rs))"

text \<open>Descending along an index: rows of equal key in descending rowid order.\<close>

definition order_by_index_desc :: "('r \<Rightarrow> 'k::linorder) \<Rightarrow> 'r list \<Rightarrow> 'r list" where
  "order_by_index_desc key rs = rev (sort_key key rs)"

text \<open>\<open>GROUP_CONCAT(x, sep)\<close> over the non-null values of a group.\<close>

definition group_concat :: "string list \<Rightarrow> string \<Rightarrow> string" where
  "group_concat xs sep = join xs sep"

text \<open>\<open>SELECT COUNT(*) as count FROM feedback\<close>\<close>

definition sql_total :: "Feedback list \<Rightarrow> nat" where
  "sql_total rs = length rs"

text \<open>\<open>SELECT COUNT(*) as count FROM feedback WHERE resolved_at IS NULL\<close>\<close>

definition sql_unresolved :: "Feedback list \<Rightarrow> nat" where
  "sql_unresolved rs = length (filter (\<lambda>r. resolved_at r = None) rs)"

text \<open>\<open>SELECT CASE WHEN sentiment = 'positive' THEN 8.0 WHEN sentiment = 'neutral' THEN 5.0
  ELSE 2.0 END as score FROM feedback\<close>: a comparison with NULL is not true.\<close>

definition score_of :: "Feedback \<Rightarrow> rat" where
  "score_of r =
     (if sentiment r = Some ''positive'' then 8
      else if sentiment r = Some ''neutral'' then 5
      else 2)"

definition sql_scores :: "Feedback list \<Rightarrow> rat list" where
  "sql_scores rs = map score_of rs"

text \<open>\<open>SELECT COUNT(DISTINCT user_email) as count FROM feedback WHERE user_email IN
  (SELECT user_email FROM feedback GROUP BY user_email HAVING COUNT(*) > 1)\<close>: NULL is in no
  list and is not counted.\<close>

definition sql_repeat_count :: "Feedback list \<Rightarrow> nat" where
  "sql_repeat_count rs =
     (let multi = map fst (filter (\<lambda>g. length (snd g) > 1) (group_by user_email rs))
      in length (remdups (filter (\<lambda>e. e \<noteq> None \<and> e \<in> set multi) (map user_email rs))))"

text \<open>\<open>SELECT title, COUNT(*) as count, sentiment FROM feedback WHERE resolved_at IS NULL
  GROUP BY title ORDER BY count DESC LIMIT 5\<close>\<close>

definition sql_top_issues :: "Feedback list \<Rightarrow> (string \<times> nat \<times> string option) list" where
  "sql_top_issues rs =
     (let groups = group_by title (filter (\<lambda>r. resolved_at r = None) rs);
          out = map (\<lambda>g. (fst g, length (snd g), (case snd g of [] \<Rightarrow> None | r # rest \<Rightarrow> sentiment r))) groups
      in take 5 (order_by_desc (\<lambda>x. fst (snd x)) out))"

text \<open>\<open>SELECT id, title, description, source, created_at, sentiment FROM feedback
  ORDER BY created_at DESC LIMIT 5\<close>\<close>

definition sql_recent :: "Feedback list \<Rightarrow> Feedback list" where
  "sql_recent rs = take 5 (order_by_index_desc created_at rs)"

text \<open>\<open>SELECT user_email, COUNT(*) as complaint_count, GROUP_CONCAT(title, ' | ') as issues
  FROM feedback WHERE resolved_at IS NULL AND user_email IS NOT NULL GROUP BY user_email
  HAVING COUNT(*) > 1 ORDER BY complaint_count DESC LIMIT 5\<close>\<close>

definition sql_repeat_users :: "Feedback list \<Rightarrow> (string option \<times> nat \<times> string) list" where
  "sql_repeat_users rs =
     (let groups = group_by user_email
            (filter (\<lambda>r. resolved_at r = None \<and> user_email r \<noteq> None) rs);
          having = filter (\<lambda>g. length (snd g) > 1) groups;
          out = map (\<lambda>g. (fst g, length (snd g), group_concat (map title (snd g)) '' | '')) having
      in take 5 (order_by_desc (\<lambda>x. fst (snd x)) out))"

text \<open>\<open>SELECT title, created_at, source, CAST((julianday('now') - julianday(created_at))
  AS INTEGER) as days_open FROM feedback WHERE resolved_at IS NULL ORDER BY created_at ASC
  LIMIT 5\<close>\<close>

definition sql_longest_unresolved :: "env \<Rightarrow> nat \<Rightarrow> Feedback list \<Rightarrow> (Feedback \<times> int) list" where
  "sql_longest_unresolved ev n rs =
     map (\<lambda>r. (r, sql_days_open ev n (created_at r)))
       (take 5 (order_by_asc created_at (filter (\<lambda>r. resolved_at r = None) rs)))"

text \<open>\<open>SELECT title, description, category, sentiment, created_at FROM feedback
  WHERE created_at > datetime('now', '-7 days') ORDER BY created_at DESC LIMIT 20\<close>\<close>

definition sql_recent_feedback :: "env \<Rightarrow> nat \<Rightarrow> Feedback list \<Rightarrow> Feedback list" where
  "sql_recent_feedback ev n rs =
     take 20 (order_by_index_desc created_at
       (filter (\<lambda>r. created_at r > sql_datetime ev n ''-7 days'') rs))"

subsection \<open>getStats\<close>

text \<open>\<open>results.length > 0 ? (results.reduce((sum, row) => sum + row.score, 0) /
  results.length).toFixed(1) : '0.0'\<close>\<close>

definition avgScore :: "rat list \<Rightarrow> string" where
  "avgScore results =
     (if length results > 0
      then toFixed1 (ddiv (foldl (\<lambda>sum score. dadd sum (Finite score)) (Finite 0) results)
             (Finite (of_nat (length results))))
      else ''0.0'')"

definition stats_json :: "nat \<Rightarrow> string \<Rightarrow> nat \<Rightarrow> nat \<Rightarrow> json" where
  "stats_json tot avg unresolved repeatUsers =
     JObj [(''total'', JNum (int tot)), (''avgSentiment'', JStr avg),
           (''unresolved'', JNum (int unresolved)), (''repeatUsers'', JNum (int repeatUsers))]"

definition getStats :: "env \<Rightarrow> (string \<times> string) list \<Rightarrow> Response io" where
  "getStats ev corsHeaders =
     await (CACHE_get ev ''stats'') (\<lambda>cached.
       if truthy cached then resolve (json_response (the cached) corsHeaders)
       else
         await (DB_query ev ''stats.total'' (\<lambda>n. sql_total)) (\<lambda>totalResult.
         await (DB_query ev ''stats.unresolved'' (\<lambda>n. sql_unresolved)) (\<lambda>unresolvedResult.
         await (DB_query ev ''stats.scores'' (\<lambda>n. sql_scores)) (\<lambda>avgSentiment.
           let avgScore = avgScore avgSentiment
           in await (DB_query ev ''stats.repeatUsers'' (\<lambda>n. sql_repeat_count)) (\<lambda>repeatUsersResult.
                let response = JSON_stringify
                      (stats_json totalResult avgScore unresolvedResult repeatUsersResult)
                in await (CACHE_put ev ''stats'' response 300) (\<lambda>u.
                     resolve (json_response response corsHeaders)))))))"

subsection \<open>getTopIssues, getRecentIssues, getRepeatUsers, getLongestUnresolved\<close>

definition top_issues_json :: "(string \<times> nat \<times> string option) list \<Rightarrow> json" where
  "top_issues_json xs =
     JArr (map (\<lambda>x. JObj [(''title'', JStr (fst x)), (''count'', JNum (int (fst (snd x)))),
                           (''sentiment'', json_of_text (snd (snd x)))]) xs)"

definition getTopIssues :: "env \<Rightarrow> (string \<times> string) list \<Rightarrow> Response io" where
  "getTopIssues ev corsHeaders =
     await (CACHE_get ev ''top-issues'') (\<lambda>cached.
       if truthy cached then resolve (json_response (the cached) corsHeaders)
       else
         await (DB_query ev ''top-issues'' (\<lambda>n. sql_top_issues)) (\<lambda>result.
           let response = JSON_stringify (top_issues_json result)
           in await (CACHE_put ev ''top-issues'' response 300) (\<lambda>u.
                resolve (json_response response corsHeaders))))"

definition recent_json :: "Feedback list \<Rightarrow> json" where
  "recent_json xs =
     JArr (map (\<lambda>r. JObj [(''id'', JNum (int (fb_id r))), (''title'', JStr (title r)),
                           (''description'', json_of_text (description r)),
                           (''source'', JStr (source r)), (''created_at'', JStr (created_at r)),
                           (''sentiment'', json_of_text (sentiment r))]) xs)"

definition getRecentIssues :: "env \<Rightarrow> (string \<times> string) list \<Rightarrow> Response io" where
  "getRecentIssues ev corsHeaders =
     await (DB_query ev ''recent'' (\<lambda>n. sql_recent)) (\<lambda>result.
       resolve (json_response (JSON_stringify (recent_json result)) corsHeaders))"

definition repeat_users_json :: "(string option \<times> nat \<times> string) list \<Rightarrow> json" where
  "repeat_users_json xs =
     JArr (map (\<lambda>x. JObj [(''user_email'', json_of_text (fst x)),
                           (''complaint_count'', JNum (int (fst (snd x)))),
                           (''issues'', JStr (snd (snd x)))]) xs)"

definition getRepeatUsers :: "env \<Rightarrow> (string \<times> string) list \<Rightarrow> Response io" where
  "getRepeatUsers ev corsHeaders =
     await (CACHE_get ev ''repeat-users'') (\<lambda>cached.
       if truthy cached then resolve (json_response (the cached) corsHeaders)
       else
         await (DB_query ev ''repeat-users'' (\<lambda>n. sql_repeat_users)) (\<lambda>result.
           let response = JSON_stringify (repeat_users_json result)
           in await (CACHE_put ev ''repeat-users'' response 300) (\<lambda>u.
                resolve (json_response response corsHeaders))))"

definition longest_unresolved_json :: "(Feedback \<times> int) list \<Rightarrow> json" where
  "longest_unresolved_json xs =
     JArr (map (\<lambda>x. JObj [(''title'', JStr (title (fst x))),
                           (''created_at'', JStr (created_at (fst x))),
                           (''source'', JStr (source (fst x))),
                           (''days_open'', JNum (snd x))]) xs)"

definition getLongestUnresolved :: "env \<Rightarrow> (string \<times> string) list \<Rightarrow> Response io" where
  "getLongestUnresolved ev corsHeaders =
     await (CACHE_get ev ''longest-unresolved'') (\<lambda>cached.
       if truthy cached then resolve (json_response (the cached) corsHeaders)
       else
         await (DB_query ev ''longest-unresolved'' (sql_longest_unresolved ev)) (\<lambda>result.
           let response = JSON_stringify (longest_unresolved_json result)
           in await (CACHE_put ev ''longest-unresolved'' response 300) (\<lambda>u.
                resolve (json_response response corsHeaders))))"

subsection \<open>getAIInsights\<close>

definition insights_json :: "string \<Rightarrow> string \<Rightarrow> json" where
  "insights_json msg generated_at = JObj [(''insights'', JStr msg), (''generated_at'', JStr generated_at)]"

definition fallback_message :: string where
  "fallback_message = ''AI analysis temporarily unavailable. Using cached data.''"

definition user_prompt :: "string \<Rightarrow> string" where
  "user_prompt feedbackText =
     ''Analyze this customer feedback and provide 3 key insights:'' @ [CHR 0x0A, CHR 0x0A] @ feedbackText"

text \<open>The cache write is inside the \<open>try\<close> block: its rejection too lands in the
  \<open>catch\<close>.\<close>

definition getAIInsights :: "env \<Rightarrow> (string \<times> string) list \<Rightarrow> Response io" where
  "getAIInsights ev corsHeaders =
     await (CACHE_get ev ''ai-insights'') (\<lambda>cached.
       if truthy cached then resolve (json_response (the cached) corsHeaders)
       else
         await (DB_query ev ''ai-insights.recent'' (sql_recent_feedback ev)) (\<lambda>recentFeedback.
           let feedbackText =
                 join (map (\<lambda>f. title f @ '': '' @ or_string (description f) ''No description'')
                        recentFeedback) [CHR 0x0A]
           in try_catch
                (await (AI_run ev ''@cf/meta/llama-3-8b-instruct'' (user_prompt feedbackText))
                   (\<lambda>aiResponse.
                    await (prop_response aiResponse) (\<lambda>r w.
                      let insights = insights_json
                            (or_string r ''No insights available at this time.'')
                            (js_now ev (length (trace w)));
                          response = JSON_stringify insights
                      in await (CACHE_put ev ''ai-insights'' response 600) (\<lambda>u.
                           resolve (json_response response corsHeaders)) w)))
                (\<lambda>error w.
                   resolve (json_response
                     (JSON_stringify (insights_json fallback_message (js_now ev (length (trace w)))))
                     corsHeaders) w)))"

subsection \<open>seedDatabase\<close>

text \<open>The identifier an \<open>AUTOINCREMENT\<close> key gives the next row of a table from which
  nothing is deleted.\<close>

definition next_id :: "Feedback list \<Rightarrow> nat" where
  "next_id rs = Suc (fold max (map fb_id rs) 0)"

text \<open>\<open>INSERT INTO feedback (title, description, source, user_email, sentiment, category,
  priority, created_at) VALUES (?, ?, ?, ?, ?, ?, ?, datetime('now', ?))\<close>; resolves to
  \<open>meta.last_row_id\<close>.\<close>

definition DB_insert ::
  "env \<Rightarrow> string \<Rightarrow> string \<Rightarrow> string \<Rightarrow> string \<Rightarrow> string \<Rightarrow> string \<Rightarrow> string \<Rightarrow> string \<Rightarrow> nat io" where
  "DB_insert ev t d s u sent cat pri modifier w =
     (case fault ev (length (trace w)) of
        Some m \<Rightarrow> (Inl (Error m), logged (DbInsert t) w)
      | None \<Rightarrow>
          let r = \<lparr>fb_id = next_id (rows w), title = t, description = Some d, source = s,
                   user_email = Some u, sentiment = Some sent, category = Some cat,
                   created_at = sql_datetime ev (length (trace w)) modifier,
                   resolved_at = None, priority = pri\<rparr>
          in (Inr (fb_id r), logged (DbInsert t) (w\<lparr>rows := rows w @ [r]\<rparr>)))"

datatype mock = Mock (m_title: string) (m_description: string) (m_source: string)
  (m_user_email: string) (m_created_at: string)

definition mockFeedback :: "mock list" where
  "mockFeedback =
    [Mock ''Dashboard loading takes 5+ seconds''
          ''The dashboard takes way too long to load. Sometimes it times out completely.''
          ''Discord'' ''dev@company.com'' ''-45 days'',
     Mock ''Dashboard loading takes 5+ seconds''
          ''Dashboard is extremely slow to load''
          ''Support Ticket'' ''pm@startup.io'' ''-40 days'',
     Mock ''Dashboard loading takes 5+ seconds''
          ''Performance issue with dashboard''
          ''GitHub'' ''eng@tech.com'' ''-35 days'',
     Mock ''Dashboard loading takes 5+ seconds''
          ''Dashboard loading is slow''
          ''Twitter'' ''user1@email.com'' ''-30 days'',
     Mock ''Dashboard loading takes 5+ seconds''
          ''Dashboard timeout errors''
          ''Discord'' ''dev@company.com'' ''-25 days'',
     Mock ''Workers AI timeout errors on large files''
          ''Workers AI times out when processing files larger than 5MB''
          ''GitHub'' ''eng@tech.com'' ''-38 days'',
     Mock ''Workers AI timeout errors on large files''
          ''Large file processing fails''
          ''Support Ticket'' ''pm@startup.io'' ''-33 days'',
     Mock ''Workers AI timeout errors on large files''
          ''Timeout issue with AI service''
          ''Discord'' ''dev@company.com'' ''-28 days'',
     Mock ''D1 migrations fail silently''
          ''D1 migrations fail without error messages''
          ''GitHub'' ''eng@tech.com'' ''-42 days'',
     Mock ''D1 migrations fail silently''
          ''Migration errors are not reported properly''
          ''Support Ticket'' ''pm@startup.io'' ''-37 days'',
     Mock ''KV cache invalidation not working''
          ''Cache does not invalidate when keys are updated''
          ''Discord'' ''dev@company.com'' ''-15 days'',
     Mock ''KV cache invalidation not working''
          ''Cache invalidation broken''
          ''GitHub'' ''eng@tech.com'' ''-12 days'',
     Mock ''Cannot deploy to Workers''
          ''Deployment fails with cryptic error message''
          ''Discord'' ''dev@company.com'' ''-5 minutes'',
     Mock ''Wrangler CLI crashes on Windows''
          ''CLI crashes when running deploy command on Windows 11''
          ''GitHub'' ''eng@tech.com'' ''-44 days'',
     Mock ''Documentation unclear on D1 setup''
          ''Cannot find clear instructions for D1 database setup''
          ''Support Ticket'' ''pm@startup.io'' ''-39 days'',
     Mock ''R2 CORS configuration unclear''
          ''Cannot figure out CORS setup for R2 buckets''
          ''Support Ticket'' ''pm@startup.io'' ''-36 days'',
     Mock ''API performance degraded''
          ''API is slower than usual. Response times have increased significantly''
          ''Discord'' ''dev@company.com'' ''-3 days'',
     Mock ''Great new AI feature!''
          ''Love the new AI models. They work really well!''
          ''Twitter'' ''fan@email.com'' ''-1 hour'',
     Mock ''Love the new features!''
          ''Great updates this month. Keep up the good work!''
          ''Twitter'' ''happy@user.com'' ''-1 day'',
     Mock ''KV storage quota exceeded''
          ''Need more storage for KV namespace''
          ''Support Ticket'' ''dev@company.com'' ''-12 minutes'',
     Mock ''Database migration failed''
          ''D1 migration script not working as expected''
          ''Support Ticket'' ''pm@startup.io'' ''-2 hours'',
     Mock ''Workers AI rate limiting too strict''
          ''Hit rate limits with Workers AI too quickly''
          ''GitHub'' ''eng@tech.com'' ''-31 days'',
     Mock ''Dashboard UI confusing''
          ''Hard to find deployment settings in the dashboard''
          ''Twitter'' ''user1@email.com'' ''-2 days'',
     Mock ''Workers AI is slow''
          ''AI inference takes too long to complete''
          ''GitHub'' ''eng@tech.com'' ''-29 days'',
     Mock ''Excellent documentation update''
          ''The latest docs are much clearer. Thank you!''
          ''Twitter'' ''happy@user.com'' ''-6 hours'']"

definition priority_of :: "string \<Rightarrow> string \<Rightarrow> string" where
  "priority_of sent t =
     (if sent = ''negative'' \<and> (includes_str t ''error'' \<or> includes_str t ''fail'' \<or> includes_str t ''crash'')
      then ''high''
      else if sent = ''positive'' then ''low''
      else ''medium'')"

definition category_of :: "string \<Rightarrow> string" where
  "category_of t =
     (if includes_str t ''Dashboard'' \<or> includes_str t ''UI'' then ''ux''
      else if includes_str t ''Workers AI'' \<or> includes_str t ''AI'' then ''ai''
      else if includes_str t ''D1'' \<or> includes_str t ''migration'' \<or> includes_str t ''Database''
        then ''database''
      else if includes_str t ''KV'' \<or> includes_str t ''cache'' then ''storage''
      else if includes_str t ''API'' \<or> includes_str t ''performance'' \<or> includes_str t ''slow''
        then ''performance''
      else if includes_str t ''Wrangler'' \<or> includes_str t ''CLI'' then ''tooling''
      else if includes_str t ''documentation'' \<or> includes_str t ''CORS'' then ''docs''
      else ''general'')"

text \<open>The body of the \<open>try\<close> block of the loop, for one entry.\<close>

definition seed_one :: "env \<Rightarrow> mock \<Rightarrow> (nat \<times> string \<times> string) io" where
  "seed_one ev feedback =
     await (analyzeSentiment ev (m_title feedback @ '' '' @ m_description feedback)) (\<lambda>sent.
       let pri = priority_of sent (m_title feedback);
           cat = category_of (m_title feedback)
       in await (DB_insert ev (m_title feedback) (m_description feedback) (m_source feedback)
                   (m_user_email feedback) sent cat pri (m_created_at feedback)) (\<lambda>last_row_id.
            resolve (last_row_id, m_title feedback, sent)))"

text \<open>The loop: \<open>inserted\<close> and \<open>errors\<close> are the two arrays it fills.\<close>

fun seed_loop ::
  "env \<Rightarrow> mock list \<Rightarrow> (nat \<times> string \<times> string) list \<Rightarrow> (string \<times> string) list \<Rightarrow> world
   \<Rightarrow> ((nat \<times> string \<times> string) list \<times> (string \<times> string) list) \<times> world" where
  "seed_loop ev [] inserted errors w = ((inserted, errors), w)"
| "seed_loop ev (feedback # rest) inserted errors w =
     (case seed_one ev feedback w of
        (Inr x, w') \<Rightarrow> seed_loop ev rest (inserted @ [x]) errors w'
      | (Inl e, w') \<Rightarrow> seed_loop ev rest inserted (errors @ [(m_title feedback, message e)]) w')"

definition seed_json :: "(nat \<times> string \<times> string) list \<Rightarrow> (string \<times> string) list \<Rightarrow> json" where
  "seed_json inserted errors =
     JObj [(''message'', JStr (''Seeded '' @ show_nat (length inserted) @ '' feedback entries'')),
           (''inserted'', JNum (int (length inserted))),
           (''errors'', JNum (int (length errors))),
           (''details'', JObj
              [(''successful'', JArr (map (\<lambda>x. JObj [(''id'', JNum (int (fst x))),
                     (''title'', JStr (fst (snd x))), (''sentiment'', JStr (snd (snd x)))]) inserted)),
               (''failed'', JArr (map (\<lambda>x. JObj [(''title'', JStr (fst x)),
                     (''error'', JStr (snd x))]) errors))])]"

definition seedDatabase :: "env \<Rightarrow> (string \<times> string) list \<Rightarrow> Response io" where
  "seedDatabase ev corsHeaders =
     await (CACHE_delete ev ''stats'') (\<lambda>u1.
     await (CACHE_delete ev ''top-issues'') (\<lambda>u2.
     await (CACHE_delete ev ''repeat-users'') (\<lambda>u3.
     await (CACHE_delete ev ''longest-unresolved'') (\<lambda>u4.
     await (CACHE_delete ev ''ai-insights'') (\<lambda>u5 w.
       case seed_loop ev mockFeedback [] [] w of
         ((inserted, errors), w') \<Rightarrow>
           resolve (json_response (JSON_stringify (seed_json inserted errors)) corsHeaders) w')))))"

subsection \<open>fetch\<close>

text \<open>The routes of the views and of the seeding; the \<open>OPTIONS\<close> method, the detail of
  one record and the dashboard page are outside this development.\<close>

datatype route = ApiStats | ApiTopIssues | ApiRecent | ApiRepeatUsers | ApiLongestUnresolved
  | ApiAiInsights | ApiSeed

definition corsHeaders :: "(string \<times> string) list" where
  "corsHeaders =
     [(''Access-Control-Allow-Origin'', ''*''),
      (''Access-Control-Allow-Methods'', ''GET, POST, OPTIONS''),
      (''Access-Control-Allow-Headers'', ''Content-Type'')]"

definition handler :: "env \<Rightarrow> route \<Rightarrow> Response io" where
  "handler ev r =
     (case r of
        ApiStats \<Rightarrow> getStats ev corsHeaders
      | ApiTopIssues \<Rightarrow> getTopIssues ev corsHeaders
      | ApiRecent \<Rightarrow> getRecentIssues ev corsHeaders
      | ApiRepeatUsers \<Rightarrow> getRepeatUsers ev corsHeaders
      | ApiLongestUnresolved \<Rightarrow> getLongestUnresolved ev corsHeaders
      | ApiAiInsights \<Rightarrow> getAIInsights ev corsHeaders
      | ApiSeed \<Rightarrow> seedDatabase ev corsHeaders)"

definition error_response :: "error \<Rightarrow> Response" where
  "error_response e =
     \<lparr>status = 500, headers = json_headers corsHeaders,
      body = JSON_stringify (JObj [(''error'', JStr (message e))])\<rparr>"

text \<open>The \<open>try\<close>/\<open>catch\<close> of \<open>fetch\<close> around the handler of the route.\<close>

definition fetch :: "env \<Rightarrow> route \<Rightarrow> world \<Rightarrow> Response \<times> world" where
  "fetch ev r w =
     (case handler ev r w of
        (Inr resp, w') \<Rightarrow> (resp, w')
      | (Inl e, w') \<Rightarrow> (error_response e, w'))"

subsection \<open>Sample environments and worlds\<close>

text \<open>An environment in which no call rejects, and one in which exactly the call
  numbered \<open>k\<close> does.\<close>

definition quiet :: env where
  "quiet =
     \<lparr>fault = (\<lambda>n. None),
      ai_result = (\<lambda>n. AiObject (Some ''NEGATIVE'') (Some (9 / 10)) (Some ''Three insights'')),
      sql_datetime = (\<lambda>n m. ''2024-05-01 12:00:00''),
      sql_days_open = (\<lambda>n t. 3),
      js_now = (\<lambda>n. ''2024-05-01T12:00:00.000Z'')\<rparr>"

definition failing_at :: "nat \<Rightarrow> env" where
  "failing_at k = quiet\<lparr>fault := (\<lambda>n. if n = k then Some ''unavailable'' else None)\<rparr>"

definition sample_row :: "nat \<Rightarrow> string \<Rightarrow> string option \<Rightarrow> string option \<Rightarrow> string \<Rightarrow> string option \<Rightarrow> Feedback" where
  "sample_row i t u s c r =
     \<lparr>fb_id = i, title = t, description = None, source = ''GitHub'', user_email = u,
      sentiment = s, category = None, created_at = c, resolved_at = r, priority = ''medium''\<rparr>"

definition empty_world :: world where
  "empty_world = \<lparr>rows = [], kv = [], trace = []\<rparr>"

text \<open>Two unresolved records of one user under one title, and a resolved record of
  another user.\<close>

definition sample_rows :: "Feedback list" where
  "sample_rows =
     [sample_row 1 ''A'' (Some ''u@x'') (Some ''positive'') ''2024-04-01 00:00:00'' None,
      sample_row 2 ''A'' (Some ''u@x'') (Some ''negative'') ''2024-04-02 00:00:00'' None,
      sample_row 3 ''B'' (Some ''v@x'') None ''2024-04-03 00:00:00'' (Some ''2024-04-04 00:00:00'')]"

definition sample_world :: world where
  "sample_world = \<lparr>rows = sample_rows, kv = [], trace = []\<rparr>"

subsection \<open>The calls of a request to the insights on a cache miss\<close>

definition insights_prompt :: "env \<Rightarrow> world \<Rightarrow> string" where
  "insights_prompt ev w =
     user_prompt (join (map (\<lambda>f. title f @ '': '' @ or_string (description f) ''No description'')
       (sql_recent_feedback ev (Suc (length (trace w))) (rows w))) [CHR 0x0A])"

definition insights_calls :: "env \<Rightarrow> world \<Rightarrow> call list" where
  "insights_calls ev w =
     [CacheGet ''ai-insights'', DbQuery ''ai-insights.recent'',
      AiRun ''@cf/meta/llama-3-8b-instruct'' (insights_prompt ev w)]"

text \<open>The cached views and their keys; the call (counted from the start of the request)
  that writes the entry back on a miss.\<close>

definition cached_views :: "(route \<times> string) list" where
  "cached_views =
     [(ApiStats, ''stats''), (ApiTopIssues, ''top-issues''), (ApiRepeatUsers, ''repeat-users''),
      (ApiLongestUnresolved, ''longest-unresolved''), (ApiAiInsights, ''ai-insights'')]"

definition write_back_call :: "(route \<times> string \<times> nat) list" where
  "write_back_call =
     [(ApiStats, ''stats'', 5), (ApiTopIssues, ''top-issues'', 2),
      (ApiRepeatUsers, ''repeat-users'', 2), (ApiLongestUnresolved, ''longest-unresolved'', 2)]"

subsection \<open>The calls of a seeding\<close>

definition invalidated_keys :: "string list" where
  "invalidated_keys =
     [''stats'', ''top-issues'', ''repeat-users'', ''longest-unresolved'', ''ai-insights'']"

text \<open>One classification and one insert per entry, in the order of the entries.\<close>

definition seed_calls :: "mock list \<Rightarrow> call list" where
  "seed_calls ms =
     concat (map (\<lambda>f. [AiRun ''@cf/huggingface/distilbert-sst-2-int8''
                          (substring (m_title f @ '' '' @ m_description f) 0 500),
                        DbInsert (m_title f)]) ms)"

fun is_cache_call :: "call \<Rightarrow> bool" where
  "is_cache_call (CacheGet k) = True"
| "is_cache_call (CachePut k v ttl) = True"
| "is_cache_call (CacheDelete k) = True"
| "is_cache_call c = False"

fun is_cache_delete :: "call \<Rightarrow> bool" where
  "is_cache_delete (CacheDelete k) = True"
| "is_cache_delete c = False"

fun is_insert :: "call \<Rightarrow> bool" where
  "is_insert (DbInsert t) = True"
| "is_insert c = False"

subsection \<open>The repeat users in the words of the specification\<close>

text \<open>The unresolved records of one user, and the row the view gives that user.\<close>

definition unresolved_of :: "string \<Rightarrow> Feedback list \<Rightarrow> Feedback list" where
  "unresolved_of u rs = filter (\<lambda>r. resolved_at r = None \<and> user_email r = Some u) rs"

definition repeat_row :: "string \<Rightarrow> Feedback list \<Rightarrow> string option \<times> nat \<times> string" where
  "repeat_row u rs =
     (Some u, length (unresolved_of u rs), join (map title (unresolved_of u rs)) '' | '')"

text \<open>The view as the specification words it: the titles of a group are made distinct
  before they are joined.\<close>

definition repeat_users_spec :: "Feedback list \<Rightarrow> (string option \<times> nat \<times> string) list" where
  "repeat_users_spec rs =
     (let groups = group_by user_email
            (filter (\<lambda>r. resolved_at r = None \<and> user_email r \<noteq> None) rs);
          kept = filter (\<lambda>g. 2 \<le> length (snd g)) groups;
          out = map (\<lambda>g. (fst g, length (snd g), join (remdups (map title (snd g))) '' | '')) kept
      in take 5 (order_by_desc (\<lambda>x. fst (snd x)) out))"

text \<open>Six users with two unresolved records each.\<close>

definition busy_rows :: "Feedback list" where
  "busy_rows =
     concat (map (\<lambda>p. [sample_row (fst p) ''A'' (Some (snd p)) None ''2024-04-01 00:00:00'' None,
                        sample_row (Suc (fst p)) ''B'' (Some (snd p)) None ''2024-04-02 00:00:00'' None])
       [(1, ''a@x''), (3, ''b@x''), (5, ''c@x''), (7, ''d@x''), (9, ''e@x''), (11, ''f@x'')])"

subsection \<open>The average in the words of the specification\<close>

text \<open>The score table of the specification: 8 for positive, 5 for neutral, 2 for
  anything else, unset included.\<close>

fun spec_score :: "string option \<Rightarrow> rat" where
  "spec_score None = 2"
| "spec_score (Some v) = (if v = ''positive'' then 8 else if v = ''neutral'' then 5 else 2)"

text \<open>The exact average of these scores over all records, resolved or not.\<close>

definition exact_average :: "Feedback list \<Rightarrow> rat" where
  "exact_average rs = (\<Sum>r \<leftarrow> rs. spec_score (sentiment r)) / of_nat (length rs)"

text \<open>Five records written in the second in which the sample environments insert.\<close>

definition same_second_world :: world where
  "same_second_world =
     \<lparr>rows = map (\<lambda>i. sample_row i ''A'' None None ''2024-05-01 12:00:00'' None) [1, 2, 3, 4, 5],
      kv = [], trace = []\<rparr>"

section \<open>Properties\<close>

subsection \<open>Substrings\<close>

lemma take_is_prefix: "take (length t) s = t \<longleftrightarrow> (\<exists>q. s = t @ q)"
proof
  assume "take (length t) s = t"
  then have "s = t @ drop (length t) s"
    by (metis append_take_drop_id)
  then show "\<exists>q. s = t @ q" ..
next
  assume "\<exists>q. s = t @ q"
  then show "take (length t) s = t" by auto
qed

lemma includes_str_iff: "includes_str s t \<longleftrightarrow> (\<exists>p q. s = p @ t @ q)"
proof (induction s)
  case Nil
  show ?case by auto
next
  case (Cons c s)
  have "(\<exists>p q. c # s = p @ t @ q) \<longleftrightarrow> (\<exists>q. c # s = t @ q) \<or> (\<exists>p q. s = p @ t @ q)"
  proof
    assume "\<exists>p q. c # s = p @ t @ q"
    then obtain p q where pq: "c # s = p @ t @ q" by blast
    show "(\<exists>q. c # s = t @ q) \<or> (\<exists>p q. s = p @ t @ q)"
    proof (cases p)
      case Nil
      with pq show ?thesis by auto
    next
      case (Cons a p')
      with pq have "s = p' @ t @ q" by simp
      then show ?thesis by blast
    qed
  next
    assume "(\<exists>q. c # s = t @ q) \<or> (\<exists>p q. s = p @ t @ q)"
    then show "\<exists>p q. c # s = p @ t @ q"
    proof
      assume "\<exists>q. c # s = t @ q"
      then obtain q where "c # s = [] @ t @ q" by auto
      then show ?thesis by blast
    next
      assume "\<exists>p q. s = p @ t @ q"
      then obtain p q where "c # s = (c # p) @ t @ q" by auto
      then show ?thesis by blast
    qed
  qed
  with Cons.IH take_is_prefix [of t "c # s"] show ?case
    by simp
qed

subsection \<open>Sorted lists\<close>

lemma sorted_wrt_take_drop:
  assumes "sorted_wrt R xs" and "x \<in> set (take n xs)" and "y \<in> set (drop n xs)"
  shows "R x y"
proof -
  have "sorted_wrt R (take n xs @ drop n xs)"
    using assms(1) by simp
  with assms(2,3) show ?thesis
    unfolding sorted_wrt_append by blast
qed

subsection \<open>Sentiment fallback\<close>

lemma keyword_sentiment_spec: "keyword_sentiment text = fallback_spec text"
  by (simp add: fallback_spec_def keyword_sentiment_def positive_keywords_def
      negative_keywords_def Let_def)

lemma analyzeSentiment_rejected:
  "fault ev (length (trace w)) = Some m \<Longrightarrow>
   analyzeSentiment ev text w =
     (Inr (keyword_sentiment text),
      logged (AiRun ''@cf/huggingface/distilbert-sst-2-int8'' (substring text 0 500)) w)"
  by (simp add: analyzeSentiment_def try_catch_def await_def AI_run_def resolve_def)

lemma broken_and_slow: "keyword_sentiment ''this is broken and slow'' = ''negative''"
  by (simp add: keyword_sentiment_def toLowerCase_def lower_char_def Let_def)

text \<open>
  C6. When the call on the classifier rejects, \<open>analyzeSentiment\<close> resolves (it does not
  reject) to the keyword classification of the specification: the text is lower-cased;
  positive if it contains a positive keyword, else negative if it contains a negative
  keyword, else neutral. The text "this is broken and slow" resolves to negative, and
  a text without any keyword to neutral.
\<close>

theorem analyzeSentiment_fallback:
  assumes "fault ev (length (trace w)) = Some m"
  shows "fst (analyzeSentiment ev text w) = Inr (fallback_spec text)
       \<and> fst (analyzeSentiment ev ''this is broken and slow'' w) = Inr ''negative''
       \<and> ((\<forall>k \<in> set (positive_keywords @ negative_keywords).
              \<not> includes_str (toLowerCase text) k)
            \<longrightarrow> fst (analyzeSentiment ev text w) = Inr ''neutral'')"
proof -
  have general: "fst (analyzeSentiment ev t w) = Inr (fallback_spec t)" for t
    using assms by (simp add: analyzeSentiment_rejected keyword_sentiment_spec)
  have "fallback_spec ''this is broken and slow'' = ''negative''"
    using broken_and_slow by (simp add: keyword_sentiment_spec)
  moreover have "fallback_spec text = ''neutral''"
    if "\<forall>k \<in> set (positive_keywords @ negative_keywords). \<not> includes_str (toLowerCase text) k"
    using that by (simp add: fallback_spec_def)
  ultimately show ?thesis
    using general by simp
qed

theorem analyzeSentiment_fallback_witness:
  "fst (analyzeSentiment (failing_at 0) ''plain words'' empty_world) = Inr ''neutral''
   \<and> fst (analyzeSentiment (failing_at 0) ''this is broken and slow'' empty_world) = Inr ''negative''"
proof -
  have rejects: "fault (failing_at 0) (length (trace empty_world)) = Some ''unavailable''"
    by (simp add: failing_at_def empty_world_def)
  have no_keyword: "\<forall>k \<in> set (positive_keywords @ negative_keywords).
      \<not> includes_str (toLowerCase ''plain words'') k"
    by (simp add: positive_keywords_def negative_keywords_def toLowerCase_def lower_char_def)
  from analyzeSentiment_fallback [OF rejects, of "''plain words''"] no_keyword
  show ?thesis by blast
qed

subsection \<open>The average of an empty table\<close>

text \<open>
  C9. For the empty record set the average is the string "0.0": the division by the
  record count is made only when there is at least one score. The guard is what gives
  this string, for the division it skips is \<open>0 / 0\<close>, which is no error in JavaScript but
  \<open>NaN\<close>, printed "NaN". On a cache miss over an empty table, with no call rejecting,
  \<open>getStats\<close> resolves to the payload whose \<open>avgSentiment\<close> is "0.0".
\<close>

theorem getStats_empty:
  assumes "rows w = []"
    and "\<forall>i < 6. fault ev (length (trace w) + i) = None"
    and "\<not> truthy (map_option fst (map_of (kv w) ''stats''))"
  shows "avgScore (sql_scores (rows w)) = ''0.0''
       \<and> toFixed1 (ddiv (foldl (\<lambda>sum score. dadd sum (Finite score)) (Finite 0)
                            (sql_scores (rows w)))
                     (Finite (of_nat (length (sql_scores (rows w)))))) = ''NaN''
       \<and> fst (getStats ev hs w)
           = Inr (json_response
               (JSON_stringify (JObj [(''total'', JNum 0), (''avgSentiment'', JStr ''0.0''),
                                      (''unresolved'', JNum 0), (''repeatUsers'', JNum 0)])) hs)"
proof -
  have f: "fault ev (length (trace w)) = None" "fault ev (Suc (length (trace w))) = None"
    "fault ev (Suc (Suc (length (trace w)))) = None"
    "fault ev (Suc (Suc (Suc (length (trace w))))) = None"
    "fault ev (Suc (Suc (Suc (Suc (length (trace w)))))) = None"
    "fault ev (Suc (Suc (Suc (Suc (Suc (length (trace w))))))) = None"
    using assms(2) [rule_format, of 0] assms(2) [rule_format, of 1] assms(2) [rule_format, of 2]
      assms(2) [rule_format, of 3] assms(2) [rule_format, of 4] assms(2) [rule_format, of 5]
    by (simp_all add: eval_nat_numeral)
  have avg: "avgScore (sql_scores (rows w)) = ''0.0''"
    using assms(1) by (simp add: avgScore_def sql_scores_def)
  have unguarded: "toFixed1 (ddiv (foldl (\<lambda>sum score. dadd sum (Finite score)) (Finite 0)
                            (sql_scores (rows w)))
                     (Finite (of_nat (length (sql_scores (rows w)))))) = ''NaN''"
    using assms(1) by (simp add: sql_scores_def)
  have "fst (getStats ev hs w)
      = Inr (json_response
          (JSON_stringify (JObj [(''total'', JNum 0), (''avgSentiment'', JStr ''0.0''),
                                 (''unresolved'', JNum 0), (''repeatUsers'', JNum 0)])) hs)"
    using assms(1) assms(3) f
    by (simp add: getStats_def await_def CACHE_get_def DB_query_def CACHE_put_def resolve_def
        logged_def Let_def avgScore_def sql_scores_def sql_total_def sql_unresolved_def
        sql_repeat_count_def group_by_def stats_json_def)
  with avg unguarded show ?thesis by simp
qed

theorem getStats_empty_witness:
  "avgScore (sql_scores (rows empty_world)) = ''0.0''
   \<and> toFixed1 (ddiv (foldl (\<lambda>sum score. dadd sum (Finite score)) (Finite 0)
                        (sql_scores (rows empty_world)))
                 (Finite (of_nat (length (sql_scores (rows empty_world)))))) = ''NaN''
   \<and> fst (getStats quiet corsHeaders empty_world)
       = Inr (json_response
           (JSON_stringify (JObj [(''total'', JNum 0), (''avgSentiment'', JStr ''0.0''),
                                  (''unresolved'', JNum 0), (''repeatUsers'', JNum 0)]))
           corsHeaders)"
proof -
  have a: "rows empty_world = []"
    by (simp add: empty_world_def)
  have b: "\<forall>i < 6. fault quiet (length (trace empty_world) + i) = None"
    by (simp add: quiet_def)
  have c: "\<not> truthy (map_option fst (map_of (kv empty_world) ''stats''))"
    by (simp add: empty_world_def truthy_def)
  from getStats_empty [OF a b c] show ?thesis .
qed

subsection \<open>The insights when the summarizer fails\<close>

lemmas io_defs = await_def resolve_def throw_def try_catch_def CACHE_get_def CACHE_put_def
  CACHE_delete_def DB_query_def AI_run_def logged_def

text \<open>
  C7. Once the cache read and the store read of a request to the insights have succeeded,
  the handler resolves whatever the summarizer does; when, on a cache miss, the call on
  the summarizer rejects, it resolves to the fixed fallback message wrapped with the
  generation timestamp.
\<close>

theorem getAIInsights_summarizer_failure:
  assumes "fault ev (length (trace w)) = None"
    and "fault ev (length (trace w) + 1) = None"
  shows "(\<exists>r. fst (getAIInsights ev hs w) = Inr r)
       \<and> (\<not> truthy (map_option fst (map_of (kv w) ''ai-insights''))
            \<and> fault ev (length (trace w) + 2) = Some m
          \<longrightarrow> fst (getAIInsights ev hs w)
              = Inr (json_response
                  (JSON_stringify (insights_json fallback_message (js_now ev (length (trace w) + 3))))
                  hs))"
proof -
  have f: "fault ev (Suc (length (trace w))) = None"
    using assms(2) by simp
  have a: "\<exists>r. fst (getAIInsights ev hs w) = Inr r"
    using assms(1) f
    by (auto simp add: getAIInsights_def io_defs prop_response_def Let_def
        split: option.splits ai_value.splits)
  have b: "fst (getAIInsights ev hs w)
       = Inr (json_response
           (JSON_stringify (insights_json fallback_message (js_now ev (length (trace w) + 3)))) hs)"
    if "\<not> truthy (map_option fst (map_of (kv w) ''ai-insights''))"
      and "fault ev (length (trace w) + 2) = Some m"
  proof -
    have "fault ev (Suc (Suc (length (trace w)))) = Some m"
      using that(2) by (simp add: eval_nat_numeral)
    then show ?thesis
      using assms(1) f that(1)
      by (simp add: getAIInsights_def io_defs Let_def eval_nat_numeral)
  qed
  from a b show ?thesis by blast
qed

theorem getAIInsights_summarizer_failure_witness:
  "fst (getAIInsights (failing_at 2) corsHeaders sample_world)
     = Inr (json_response
         (JSON_stringify (insights_json fallback_message
            (js_now (failing_at 2) (length (trace sample_world) + 3))))
         corsHeaders)"
proof -
  have a: "fault (failing_at 2) (length (trace sample_world)) = None"
    by (simp add: failing_at_def sample_world_def)
  have b: "fault (failing_at 2) (length (trace sample_world) + 1) = None"
    by (simp add: failing_at_def sample_world_def)
  have c: "\<not> truthy (map_option fst (map_of (kv sample_world) ''ai-insights''))"
    by (simp add: sample_world_def truthy_def)
  have d: "fault (failing_at 2) (length (trace sample_world) + 2) = Some ''unavailable''"
    by (simp add: failing_at_def sample_world_def)
  from getAIInsights_summarizer_failure [OF a b, of corsHeaders "''unavailable''"] c d
  show ?thesis by blast
qed

lemma getAIInsights_rejected_world:
  assumes "fault ev (length (trace w)) = None"
    and "\<not> truthy (map_option fst (map_of (kv w) ''ai-insights''))"
    and "fault ev (Suc (length (trace w))) = None"
    and "fault ev (Suc (Suc (length (trace w)))) = Some m"
  shows "snd (getAIInsights ev hs w) = w\<lparr>trace := trace w @ insights_calls ev w\<rparr>"
  using assms
  by (simp add: getAIInsights_def io_defs Let_def insights_calls_def insights_prompt_def)

lemma getAIInsights_miss_trace:
  assumes "fault ev (length (trace w)) = None"
    and "\<not> truthy (map_option fst (map_of (kv w) ''ai-insights''))"
    and "fault ev (Suc (length (trace w))) = None"
  shows "\<exists>rest. trace (snd (getAIInsights ev hs w)) = trace w @ insights_calls ev w @ rest"
  using assms
  by (auto simp add: getAIInsights_def io_defs Let_def insights_calls_def insights_prompt_def
      prop_response_def split: option.splits ai_value.splits)

lemma getAIInsights_success:
  assumes "fault ev (length (trace w)) = None"
    and "\<not> truthy (map_option fst (map_of (kv w) ''ai-insights''))"
    and "fault ev (Suc (length (trace w))) = None"
    and "fault ev (Suc (Suc (length (trace w)))) = None"
    and "ai_result ev (Suc (Suc (length (trace w)))) = AiObject l s r"
    and "fault ev (Suc (Suc (Suc (length (trace w))))) = None"
  shows "getAIInsights ev hs w =
     (let p = JSON_stringify (insights_json (or_string r ''No insights available at this time.'')
                (js_now ev (length (trace w) + 3)))
      in (Inr (json_response p hs),
          w\<lparr>kv := AList.update ''ai-insights'' (p, 600) (kv w),
            trace := trace w @ insights_calls ev w @ [CachePut ''ai-insights'' p 600]\<rparr>))"
  using assms
  by (simp add: getAIInsights_def io_defs Let_def insights_calls_def insights_prompt_def
      prop_response_def eval_nat_numeral)

text \<open>
  C10. On a cache miss of a request to the insights: when the call on the summarizer
  rejects, the handler makes three calls (cache read, store read, summarizer) and no cache
  write, and leaves the cache as it was, so that the next request, its cache read and store
  read succeeding, reads the store and calls the summarizer again. When the summarizer
  answers and the cache write succeeds, the payload is stored under \<open>ai-insights\<close> with a
  time-to-live of 600.
\<close>

theorem getAIInsights_fallback_not_cached:
  assumes "fault ev (length (trace w)) = None"
    and "\<not> truthy (map_option fst (map_of (kv w) ''ai-insights''))"
    and "fault ev (length (trace w) + 1) = None"
  shows "(fault ev (length (trace w) + 2) = Some m \<longrightarrow>
            kv (snd (getAIInsights ev hs w)) = kv w
          \<and> trace (snd (getAIInsights ev hs w)) = trace w @ insights_calls ev w
          \<and> (\<forall>k v ttl. CachePut k v ttl \<notin> set (insights_calls ev w))
          \<and> (fault ev (length (trace w) + 3) = None \<and> fault ev (length (trace w) + 4) = None
             \<longrightarrow> (\<exists>rest. trace (snd (getAIInsights ev hs (snd (getAIInsights ev hs w))))
                    = trace (snd (getAIInsights ev hs w))
                      @ insights_calls ev (snd (getAIInsights ev hs w)) @ rest)))
       \<and> (fault ev (length (trace w) + 2) = None
            \<and> ai_result ev (length (trace w) + 2) = AiObject l s r
            \<and> fault ev (length (trace w) + 3) = None \<longrightarrow>
            map_of (kv (snd (getAIInsights ev hs w))) ''ai-insights''
              = Some (JSON_stringify (insights_json
                        (or_string r ''No insights available at this time.'')
                        (js_now ev (length (trace w) + 3))), 600))"
proof -
  let ?w' = "snd (getAIInsights ev hs w)"
  have f1: "fault ev (Suc (length (trace w))) = None"
    using assms(3) by simp
  have failure: "kv ?w' = kv w \<and> trace ?w' = trace w @ insights_calls ev w
      \<and> (\<forall>k v ttl. CachePut k v ttl \<notin> set (insights_calls ev w))
      \<and> (fault ev (length (trace w) + 3) = None \<and> fault ev (length (trace w) + 4) = None
          \<longrightarrow> (\<exists>rest. trace (snd (getAIInsights ev hs ?w'))
                 = trace ?w' @ insights_calls ev ?w' @ rest))"
    if rej: "fault ev (length (trace w) + 2) = Some m"
  proof -
    have f2: "fault ev (Suc (Suc (length (trace w)))) = Some m"
      using rej by (simp add: eval_nat_numeral)
    have w': "?w' = w\<lparr>trace := trace w @ insights_calls ev w\<rparr>"
      using assms(1,2) f1 f2 by (rule getAIInsights_rejected_world)
    have len: "length (trace ?w') = length (trace w) + 3"
      by (simp add: w' insights_calls_def)
    have again: "\<exists>rest. trace (snd (getAIInsights ev hs ?w'))
        = trace ?w' @ insights_calls ev ?w' @ rest"
      if "fault ev (length (trace w) + 3) = None" "fault ev (length (trace w) + 4) = None"
    proof (rule getAIInsights_miss_trace)
      show "fault ev (length (trace ?w')) = None"
        using that(1) by (simp add: len)
      show "\<not> truthy (map_option fst (map_of (kv ?w') ''ai-insights''))"
        using assms(2) by (simp add: w')
      show "fault ev (Suc (length (trace ?w'))) = None"
        using that(2) by (simp add: len add.commute)
    qed
    have "kv ?w' = kv w" "trace ?w' = trace w @ insights_calls ev w"
      by (simp_all add: w')
    moreover have "\<forall>k v ttl. CachePut k v ttl \<notin> set (insights_calls ev w)"
      by (simp add: insights_calls_def)
    ultimately show ?thesis
      using again by blast
  qed
  have success: "map_of (kv ?w') ''ai-insights''
      = Some (JSON_stringify (insights_json (or_string r ''No insights available at this time.'')
                (js_now ev (length (trace w) + 3))), 600)"
    if "fault ev (length (trace w) + 2) = None"
      and "ai_result ev (length (trace w) + 2) = AiObject l s r"
      and "fault ev (length (trace w) + 3) = None"
  proof -
    have "fault ev (Suc (Suc (length (trace w)))) = None"
      "ai_result ev (Suc (Suc (length (trace w)))) = AiObject l s r"
      "fault ev (Suc (Suc (Suc (length (trace w))))) = None"
      using that by (simp_all add: eval_nat_numeral)
    from getAIInsights_success [OF assms(1,2) f1 this, of hs]
    show ?thesis
      by (simp add: Let_def update_conv')
  qed
  from failure success show ?thesis by blast
qed

theorem getAIInsights_fallback_not_cached_witness:
  "(kv (snd (getAIInsights (failing_at 2) corsHeaders sample_world)) = kv sample_world
    \<and> trace (snd (getAIInsights (failing_at 2) corsHeaders sample_world))
        = trace sample_world @ insights_calls (failing_at 2) sample_world
    \<and> (\<exists>rest. trace (snd (getAIInsights (failing_at 2) corsHeaders
                   (snd (getAIInsights (failing_at 2) corsHeaders sample_world))))
           = trace (snd (getAIInsights (failing_at 2) corsHeaders sample_world))
             @ insights_calls (failing_at 2)
                 (snd (getAIInsights (failing_at 2) corsHeaders sample_world))
             @ rest))
   \<and> map_of (kv (snd (getAIInsights quiet corsHeaders sample_world))) ''ai-insights''
       = Some (JSON_stringify (insights_json
                 (or_string (Some ''Three insights'') ''No insights available at this time.'')
                 (js_now quiet (length (trace sample_world) + 3))), 600)"
proof -
  have a: "fault (failing_at 2) (length (trace sample_world)) = None"
    by (simp add: failing_at_def sample_world_def)
  have b: "\<not> truthy (map_option fst (map_of (kv sample_world) ''ai-insights''))"
    by (simp add: sample_world_def truthy_def)
  have c: "fault (failing_at 2) (length (trace sample_world) + 1) = None"
    by (simp add: failing_at_def sample_world_def)
  have d: "fault (failing_at 2) (length (trace sample_world) + 2) = Some ''unavailable''"
    by (simp add: failing_at_def sample_world_def)
  have e: "fault (failing_at 2) (length (trace sample_world) + 3) = None
         \<and> fault (failing_at 2) (length (trace sample_world) + 4) = None"
    by (simp add: failing_at_def sample_world_def)
  have a': "fault quiet (length (trace sample_world)) = None"
    and c': "fault quiet (length (trace sample_world) + 1) = None"
    by (simp_all add: quiet_def)
  have d': "fault quiet (length (trace sample_world) + 2) = None
      \<and> ai_result quiet (length (trace sample_world) + 2)
          = AiObject (Some ''NEGATIVE'') (Some (9 / 10)) (Some ''Three insights'')
      \<and> fault quiet (length (trace sample_world) + 3) = None"
    by (simp add: quiet_def)
  from getAIInsights_fallback_not_cached [OF a b c, of "''unavailable''" corsHeaders] d e
    getAIInsights_fallback_not_cached [OF a' b c', of _ corsHeaders "Some ''NEGATIVE''"
      "Some (9 / 10)" "Some ''Three insights''"] d'
  show ?thesis by blast
qed

subsection \<open>The recent issues are never cached\<close>

lemma insort_key_before_last:
  "f x \<le> f r \<Longrightarrow> insort_key f x (ys @ [r]) = insort_key f x ys @ [r]"
  by (induction ys) auto

lemma sort_key_latest:
  "\<forall>y \<in> set rs. f y \<le> f r \<Longrightarrow> sort_key f (rs @ [r]) = sort_key f rs @ [r]"
  by (induction rs) (simp_all add: insort_key_before_last)

lemma order_by_index_desc_latest:
  assumes "\<forall>y \<in> set rs. key y \<le> key r"
  shows "order_by_index_desc key (rs @ [r]) = r # order_by_index_desc key rs"
  using sort_key_latest [OF assms] by (simp add: order_by_index_desc_def)

lemma sorted_order_by_index_desc:
  "sorted_wrt (\<lambda>a b. f b \<le> f a) (order_by_index_desc f xs)"
proof -
  have "sorted_wrt (\<lambda>a b. f a \<le> f b) (sort_key f xs)"
    using sorted_sort_key [of f xs] by (simp add: sorted_map)
  then show ?thesis
    by (simp add: order_by_index_desc_def sorted_wrt_rev)
qed

lemma stringify_array_first:
  "\<exists>rest. JSON_stringify (JArr (x # xs)) = ''['' @ JSON_stringify x @ rest"
  by (cases xs) simp_all

text \<open>The five most recent rows: as many as there are up to five, rows of the table,
  newest first, and no row left out is newer than a row returned.\<close>

lemma sql_recent_rows:
  "length (sql_recent rs) = min 5 (length rs)"
  "set (sql_recent rs) \<subseteq> set rs"
  "sorted_wrt (\<lambda>a b. created_at b \<le> created_at a) (sql_recent rs)"
  "x \<in> set rs \<Longrightarrow> x \<notin> set (sql_recent rs) \<Longrightarrow> y \<in> set (sql_recent rs)
     \<Longrightarrow> created_at x \<le> created_at y"
proof -
  let ?all = "order_by_index_desc created_at rs"
  have s: "sorted_wrt (\<lambda>a b. created_at b \<le> created_at a) ?all"
    by (rule sorted_order_by_index_desc)
  have all: "set ?all = set rs"
    by (simp add: order_by_index_desc_def)
  show "length (sql_recent rs) = min 5 (length rs)"
    by (simp add: sql_recent_def order_by_index_desc_def min.commute)
  show "set (sql_recent rs) \<subseteq> set rs"
    unfolding sql_recent_def all [symmetric] by (rule set_take_subset)
  show "sorted_wrt (\<lambda>a b. created_at b \<le> created_at a) (sql_recent rs)"
    unfolding sql_recent_def using s by (rule sorted_wrt_take)
  show "created_at x \<le> created_at y"
    if "x \<in> set rs" "x \<notin> set (sql_recent rs)" "y \<in> set (sql_recent rs)"
  proof -
    have "x \<in> set (take 5 ?all) \<union> set (drop 5 ?all)"
      using that(1) by (simp only: set_append [symmetric] append_take_drop_id all)
    with that(2) have "x \<in> set (drop 5 ?all)"
      by (simp add: sql_recent_def)
    moreover have "y \<in> set (take 5 ?all)"
      using that(3) by (simp add: sql_recent_def)
    ultimately show ?thesis
      using sorted_wrt_take_drop [OF s] by blast
  qed
qed

text \<open>
  C8. A request to the recent issues makes exactly one call, the store read: it neither
  reads nor writes the cache, and its answer does not depend on the cache. When the store
  read succeeds the body is the serialisation of the five most recent rows of the table
  as it is at that moment, newest first, each with its id, title, description, source,
  creation time and sentiment. So directly after an insert the body is computed from the
  table with the new row, and when no other row has a later creation time (rows written
  in the same second included) the new row is the first entry of the body.
\<close>

theorem getRecentIssues_not_cached:
  "trace (snd (getRecentIssues ev hs w)) = trace w @ [DbQuery ''recent'']
   \<and> kv (snd (getRecentIssues ev hs w)) = kv w
   \<and> fst (getRecentIssues ev hs (w\<lparr>kv := c\<rparr>)) = fst (getRecentIssues ev hs w)
   \<and> (fault ev (length (trace w)) = None \<longrightarrow>
        fst (getRecentIssues ev hs w)
          = Inr (json_response (JSON_stringify (JArr (map
              (\<lambda>r. JObj [(''id'', JNum (int (fb_id r))), (''title'', JStr (title r)),
                          (''description'', json_of_text (description r)),
                          (''source'', JStr (source r)), (''created_at'', JStr (created_at r)),
                          (''sentiment'', json_of_text (sentiment r))])
              (sql_recent (rows w))))) hs))
   \<and> length (sql_recent (rows w)) = min 5 (length (rows w))
   \<and> set (sql_recent (rows w)) \<subseteq> set (rows w)
   \<and> sorted_wrt (\<lambda>a b. created_at b \<le> created_at a) (sql_recent (rows w))
   \<and> (\<forall>x \<in> set (rows w). \<forall>y \<in> set (sql_recent (rows w)).
         x \<notin> set (sql_recent (rows w)) \<longrightarrow> created_at x \<le> created_at y)
   \<and> (DB_insert ev t d s u sent cat pri md w = (Inr i, w1)
        \<and> fault ev (length (trace w1)) = None \<longrightarrow>
        rows w1 = rows w @
          [\<lparr>fb_id = i, title = t, description = Some d, source = s, user_email = Some u,
            sentiment = Some sent, category = Some cat,
            created_at = sql_datetime ev (length (trace w)) md, resolved_at = None,
            priority = pri\<rparr>]
        \<and> ((\<forall>x \<in> set (rows w). created_at x \<le> sql_datetime ev (length (trace w)) md)
             \<longrightarrow> (\<exists>resp rest. fst (getRecentIssues ev hs w1) = Inr resp
                   \<and> body resp = ''['' @ JSON_stringify
                        (JObj [(''id'', JNum (int i)), (''title'', JStr t),
                               (''description'', JStr d), (''source'', JStr s),
                               (''created_at'', JStr (sql_datetime ev (length (trace w)) md)),
                               (''sentiment'', JStr sent)]) @ rest)))"
proof -
  let ?obj = "\<lambda>r. JObj [(''id'', JNum (int (fb_id r))), (''title'', JStr (title r)),
                          (''description'', json_of_text (description r)),
                          (''source'', JStr (source r)), (''created_at'', JStr (created_at r)),
                          (''sentiment'', json_of_text (sentiment r))]"
  have calls: "trace (snd (getRecentIssues ev hs w)) = trace w @ [DbQuery ''recent'']"
    "kv (snd (getRecentIssues ev hs w)) = kv w"
    by (simp_all add: getRecentIssues_def io_defs split: option.splits)
  have indep: "fst (getRecentIssues ev hs (w\<lparr>kv := c\<rparr>)) = fst (getRecentIssues ev hs w)"
    by (simp add: getRecentIssues_def io_defs split: option.splits)
  have fresh: "fst (getRecentIssues ev hs v)
      = Inr (json_response (JSON_stringify (JArr (map ?obj (sql_recent (rows v))))) hs)"
    if "fault ev (length (trace v)) = None" for v
    using that by (simp add: getRecentIssues_def io_defs recent_json_def)
  have shape: "length (sql_recent (rows w)) = min 5 (length (rows w))"
    "set (sql_recent (rows w)) \<subseteq> set (rows w)"
    "sorted_wrt (\<lambda>a b. created_at b \<le> created_at a) (sql_recent (rows w))"
    by (rule sql_recent_rows)+
  have newest: "\<forall>x \<in> set (rows w). \<forall>y \<in> set (sql_recent (rows w)).
      x \<notin> set (sql_recent (rows w)) \<longrightarrow> created_at x \<le> created_at y"
    using sql_recent_rows(4) [of _ "rows w"] by blast
  have after: "rows w1 = rows w @
          [\<lparr>fb_id = i, title = t, description = Some d, source = s, user_email = Some u,
            sentiment = Some sent, category = Some cat,
            created_at = sql_datetime ev (length (trace w)) md, resolved_at = None,
            priority = pri\<rparr>]
        \<and> ((\<forall>x \<in> set (rows w). created_at x \<le> sql_datetime ev (length (trace w)) md)
             \<longrightarrow> (\<exists>resp rest. fst (getRecentIssues ev hs w1) = Inr resp
                   \<and> body resp = ''['' @ JSON_stringify
                        (JObj [(''id'', JNum (int i)), (''title'', JStr t),
                               (''description'', JStr d), (''source'', JStr s),
                               (''created_at'', JStr (sql_datetime ev (length (trace w)) md)),
                               (''sentiment'', JStr sent)]) @ rest))"
    if ins: "DB_insert ev t d s u sent cat pri md w = (Inr i, w1)"
      and ok: "fault ev (length (trace w1)) = None"
  proof -
    define new where "new = \<lparr>fb_id = i, title = t, description = Some d, source = s,
      user_email = Some u, sentiment = Some sent, category = Some cat,
      created_at = sql_datetime ev (length (trace w)) md, resolved_at = None, priority = pri\<rparr>"
    have r: "rows w1 = rows w @ [new]"
      using ins by (auto simp add: DB_insert_def logged_def Let_def new_def split: option.splits)
    have "\<exists>resp rest. fst (getRecentIssues ev hs w1) = Inr resp
        \<and> body resp = ''['' @ JSON_stringify (?obj new) @ rest"
      if "\<forall>x \<in> set (rows w). created_at x \<le> sql_datetime ev (length (trace w)) md"
    proof -
      have "\<forall>x \<in> set (rows w). created_at x \<le> created_at new"
        using that by (simp add: new_def)
      then have "order_by_index_desc created_at (rows w @ [new])
          = new # order_by_index_desc created_at (rows w)"
        by (rule order_by_index_desc_latest)
      then have first: "sql_recent (rows w1)
          = new # take 4 (order_by_index_desc created_at (rows w))"
        by (simp add: sql_recent_def r)
      have "map ?obj (sql_recent (rows w1))
          = ?obj new # map ?obj (take 4 (order_by_index_desc created_at (rows w)))"
        by (simp only: first list.map)
      moreover obtain rest where "JSON_stringify
            (JArr (?obj new # map ?obj (take 4 (order_by_index_desc created_at (rows w)))))
          = ''['' @ JSON_stringify (?obj new) @ rest"
        using stringify_array_first
          [of "?obj new" "map ?obj (take 4 (order_by_index_desc created_at (rows w)))"]
        by (rule exE)
      ultimately have "JSON_stringify (JArr (map ?obj (sql_recent (rows w1))))
          = ''['' @ JSON_stringify (?obj new) @ rest"
        by (simp only:)
      then have "body (json_response (JSON_stringify (JArr (map ?obj (sql_recent (rows w1))))) hs)
          = ''['' @ JSON_stringify (?obj new) @ rest"
        by (simp only: json_response_def Response.simps)
      with fresh [OF ok] show ?thesis
        by blast
    qed
    then have "(\<forall>x \<in> set (rows w). created_at x \<le> sql_datetime ev (length (trace w)) md)
        \<longrightarrow> (\<exists>resp rest. fst (getRecentIssues ev hs w1) = Inr resp
              \<and> body resp = ''['' @ JSON_stringify (?obj new) @ rest)"
      by (rule impI)
    then show ?thesis
      using r unfolding new_def json_of_text_def Feedback.simps option.simps
      by (rule_tac conjI)
  qed
  have c4: "fault ev (length (trace w)) = None \<longrightarrow>
        fst (getRecentIssues ev hs w)
          = Inr (json_response (JSON_stringify (JArr (map ?obj (sql_recent (rows w))))) hs)"
    using fresh [of w] by (rule impI)
  have c9: "DB_insert ev t d s u sent cat pri md w = (Inr i, w1)
        \<and> fault ev (length (trace w1)) = None \<longrightarrow>
        rows w1 = rows w @
          [\<lparr>fb_id = i, title = t, description = Some d, source = s, user_email = Some u,
            sentiment = Some sent, category = Some cat,
            created_at = sql_datetime ev (length (trace w)) md, resolved_at = None,
            priority = pri\<rparr>]
        \<and> ((\<forall>x \<in> set (rows w). created_at x \<le> sql_datetime ev (length (trace w)) md)
             \<longrightarrow> (\<exists>resp rest. fst (getRecentIssues ev hs w1) = Inr resp
                   \<and> body resp = ''['' @ JSON_stringify
                        (JObj [(''id'', JNum (int i)), (''title'', JStr t),
                               (''description'', JStr d), (''source'', JStr s),
                               (''created_at'', JStr (sql_datetime ev (length (trace w)) md)),
                               (''sentiment'', JStr sent)]) @ rest))"
    using after by (intro impI) (elim conjE)
  from calls indep c4 shape newest c9 show ?thesis
    by (intro conjI)
qed

theorem getRecentIssues_not_cached_witness:
  "fst (getRecentIssues quiet corsHeaders same_second_world)
     = Inr (json_response (JSON_stringify (JArr (map
         (\<lambda>r. JObj [(''id'', JNum (int (fb_id r))), (''title'', JStr (title r)),
                     (''description'', json_of_text (description r)),
                     (''source'', JStr (source r)), (''created_at'', JStr (created_at r)),
                     (''sentiment'', json_of_text (sentiment r))])
         (sql_recent (rows same_second_world))))) corsHeaders)
   \<and> (\<exists>resp rest.
         fst (getRecentIssues quiet corsHeaders
               (snd (DB_insert quiet ''T'' ''D'' ''S'' ''U'' ''neutral'' ''general'' ''medium''
                      ''-1 hour'' same_second_world))) = Inr resp
         \<and> body resp = ''['' @ JSON_stringify
              (JObj [(''id'', JNum (int 6)), (''title'', JStr ''T''),
                     (''description'', JStr ''D''), (''source'', JStr ''S''),
                     (''created_at'', JStr (sql_datetime quiet (length (trace same_second_world))
                                             ''-1 hour'')),
                     (''sentiment'', JStr ''neutral'')]) @ rest)"
proof -
  let ?ins = "DB_insert quiet ''T'' ''D'' ''S'' ''U'' ''neutral'' ''general'' ''medium''
    ''-1 hour'' same_second_world"
  have a: "fault quiet (length (trace same_second_world)) = None"
    by (simp add: quiet_def)
  have b: "?ins = (Inr 6, snd ?ins) \<and> fault quiet (length (trace (snd ?ins))) = None"
    by (simp add: DB_insert_def quiet_def same_second_world_def sample_row_def
        next_id_def logged_def)
  have c: "\<forall>x \<in> set (rows same_second_world).
      created_at x \<le> sql_datetime quiet (length (trace same_second_world)) ''-1 hour''"
    by (simp add: quiet_def same_second_world_def sample_row_def)
  from getRecentIssues_not_cached [where ev = quiet and hs = corsHeaders
      and w = same_second_world and t = "''T''" and d = "''D''" and s = "''S''"
      and u = "''U''" and sent = "''neutral''" and cat = "''general''" and pri = "''medium''"
      and md = "''-1 hour''" and i = 6 and ?w1.0 = "snd ?ins"] a b c
  show ?thesis by blast
qed

subsection \<open>Failures of the cache\<close>

lemma status_error_response: "status (error_response e) = 500"
  by (simp add: error_response_def)

lemma cached_handler_read_rejected:
  assumes "(r, k) \<in> set cached_views" and "fault ev (length (trace w)) = Some m"
  shows "handler ev r w = (Inl (Error m), logged (CacheGet k) w)"
  using assms
  by (auto simp add: cached_views_def handler_def getStats_def getTopIssues_def
      getRepeatUsers_def getLongestUnresolved_def getAIInsights_def await_def CACHE_get_def)

text \<open>
  C3, as the code has it. For each of the five cached views, a rejection of the cache read
  is not caught by the handler: the handler rejects with that error after this one call,
  without reading the store, and \<open>fetch\<close> answers with status 500 and the message of the
  error.
\<close>

theorem cache_read_failure_propagates:
  assumes "(r, k) \<in> set cached_views" and "fault ev (length (trace w)) = Some m"
  shows "handler ev r w = (Inl (Error m), logged (CacheGet k) w)
       \<and> fetch ev r w = (error_response (Error m), logged (CacheGet k) w)
       \<and> status (fst (fetch ev r w)) = 500
       \<and> rows (snd (fetch ev r w)) = rows w
       \<and> trace (snd (fetch ev r w)) = trace w @ [CacheGet k]"
proof -
  have h: "handler ev r w = (Inl (Error m), logged (CacheGet k) w)"
    using assms by (rule cached_handler_read_rejected)
  then have "fetch ev r w = (error_response (Error m), logged (CacheGet k) w)"
    by (simp add: fetch_def)
  with h show ?thesis
    by (simp add: status_error_response logged_def)
qed

theorem cache_read_failure_propagates_witness:
  "handler (failing_at 0) ApiAiInsights sample_world
     = (Inl (Error ''unavailable''), logged (CacheGet ''ai-insights'') sample_world)
   \<and> fetch (failing_at 0) ApiAiInsights sample_world
     = (error_response (Error ''unavailable''), logged (CacheGet ''ai-insights'') sample_world)
   \<and> status (fst (fetch (failing_at 0) ApiAiInsights sample_world)) = 500
   \<and> rows (snd (fetch (failing_at 0) ApiAiInsights sample_world)) = rows sample_world
   \<and> trace (snd (fetch (failing_at 0) ApiAiInsights sample_world))
     = trace sample_world @ [CacheGet ''ai-insights'']"
proof -
  have a: "(ApiAiInsights, ''ai-insights'') \<in> set cached_views"
    by (simp add: cached_views_def)
  have b: "fault (failing_at 0) (length (trace sample_world)) = Some ''unavailable''"
    by (simp add: failing_at_def sample_world_def)
  from cache_read_failure_propagates [OF a b] show ?thesis .
qed

text \<open>The claim as written fails: with the cache read rejecting, a request to the
  statistics is answered with status 500 and the error, and the store is not read.\<close>

theorem cache_read_failure_counterexample:
  "fst (getStats (failing_at 0) corsHeaders sample_world) = Inl (Error ''unavailable'')
   \<and> status (fst (fetch (failing_at 0) ApiStats sample_world)) = 500
   \<and> body (fst (fetch (failing_at 0) ApiStats sample_world))
       = JSON_stringify (JObj [(''error'', JStr ''unavailable'')])
   \<and> trace (snd (fetch (failing_at 0) ApiStats sample_world)) = [CacheGet ''stats'']"
  by (simp add: fetch_def handler_def getStats_def await_def CACHE_get_def failing_at_def
      sample_world_def logged_def error_response_def)

lemma getStats_write_rejected:
  assumes "\<forall>i < 5. fault ev (length (trace w) + i) = None"
    and "\<not> truthy (map_option fst (map_of (kv w) ''stats''))"
    and "fault ev (length (trace w) + 5) = Some m"
  shows "fst (getStats ev hs w) = Inl (Error m)"
proof -
  have f: "fault ev (length (trace w)) = None" "fault ev (Suc (length (trace w))) = None"
    "fault ev (Suc (Suc (length (trace w)))) = None"
    "fault ev (Suc (Suc (Suc (length (trace w))))) = None"
    "fault ev (Suc (Suc (Suc (Suc (length (trace w)))))) = None"
    "fault ev (Suc (Suc (Suc (Suc (Suc (length (trace w))))))) = Some m"
    using assms(1) [rule_format, of 0] assms(1) [rule_format, of 1] assms(1) [rule_format, of 2]
      assms(1) [rule_format, of 3] assms(1) [rule_format, of 4] assms(3)
    by (simp_all add: eval_nat_numeral)
  show ?thesis
    using assms(2) f
    by (simp add: getStats_def io_defs Let_def)
qed

lemma simple_view_write_rejected:
  assumes "\<forall>i < 2. fault ev (length (trace w) + i) = None"
    and "fault ev (length (trace w) + 2) = Some m"
  shows "\<not> truthy (map_option fst (map_of (kv w) ''top-issues''))
           \<Longrightarrow> fst (getTopIssues ev hs w) = Inl (Error m)"
    and "\<not> truthy (map_option fst (map_of (kv w) ''repeat-users''))
           \<Longrightarrow> fst (getRepeatUsers ev hs w) = Inl (Error m)"
    and "\<not> truthy (map_option fst (map_of (kv w) ''longest-unresolved''))
           \<Longrightarrow> fst (getLongestUnresolved ev hs w) = Inl (Error m)"
proof -
  have f: "fault ev (length (trace w)) = None" "fault ev (Suc (length (trace w))) = None"
    "fault ev (Suc (Suc (length (trace w)))) = Some m"
    using assms(1) [rule_format, of 0] assms(1) [rule_format, of 1] assms(2)
    by (simp_all add: eval_nat_numeral)
  show "\<not> truthy (map_option fst (map_of (kv w) ''top-issues''))
           \<Longrightarrow> fst (getTopIssues ev hs w) = Inl (Error m)"
    using f by (simp add: getTopIssues_def io_defs Let_def)
  show "\<not> truthy (map_option fst (map_of (kv w) ''repeat-users''))
           \<Longrightarrow> fst (getRepeatUsers ev hs w) = Inl (Error m)"
    using f by (simp add: getRepeatUsers_def io_defs Let_def)
  show "\<not> truthy (map_option fst (map_of (kv w) ''longest-unresolved''))
           \<Longrightarrow> fst (getLongestUnresolved ev hs w) = Inl (Error m)"
    using f by (simp add: getLongestUnresolved_def io_defs Let_def)
qed

lemma getAIInsights_write_rejected:
  assumes "\<forall>i < 3. fault ev (length (trace w) + i) = None"
    and "\<not> truthy (map_option fst (map_of (kv w) ''ai-insights''))"
    and "fault ev (length (trace w) + 3) = Some m"
    and "ai_result ev (length (trace w) + 2) = AiObject l s t"
  shows "fst (getAIInsights ev hs w)
     = Inr (json_response
         (JSON_stringify (insights_json fallback_message (js_now ev (length (trace w) + 4)))) hs)"
proof -
  have f: "fault ev (length (trace w)) = None" "fault ev (Suc (length (trace w))) = None"
    "fault ev (Suc (Suc (length (trace w)))) = None"
    "fault ev (Suc (Suc (Suc (length (trace w))))) = Some m"
    "ai_result ev (Suc (Suc (length (trace w)))) = AiObject l s t"
    using assms(1) [rule_format, of 0] assms(1) [rule_format, of 1] assms(1) [rule_format, of 2]
      assms(3) assms(4)
    by (simp_all add: eval_nat_numeral)
  show ?thesis
    using assms(2) f
    by (simp add: getAIInsights_def io_defs Let_def prop_response_def eval_nat_numeral)
qed

text \<open>
  C2, as the code has it. On a cache miss whose computation succeeds, a rejection of the
  cache write is not swallowed. For the statistics, the top issues, the repeat users and
  the longest unresolved issues the handler rejects with that error, and \<open>fetch\<close> answers
  with status 500 and the message of the error as its body: not with a success response,
  whatever its payload. For the insights the cache write is inside the \<open>try\<close> block of the
  summarizer: its rejection is caught there, and the handler resolves to the fixed fallback
  message wrapped with a timestamp read after the rejection.
\<close>

theorem cache_write_failure_not_swallowed:
  assumes "\<forall>i < j. fault ev (length (trace w) + i) = None"
    and "\<not> truthy (map_option fst (map_of (kv w) k))"
    and "fault ev (length (trace w) + j) = Some m"
  shows "((r, k, j) \<in> set write_back_call \<longrightarrow>
            fst (handler ev r w) = Inl (Error m)
          \<and> fst (fetch ev r w) = error_response (Error m)
          \<and> status (fst (fetch ev r w)) = 500
          \<and> body (fst (fetch ev r w)) = JSON_stringify (JObj [(''error'', JStr m)])
          \<and> (\<forall>b. fst (fetch ev r w) \<noteq> json_response b corsHeaders))
       \<and> (k = ''ai-insights'' \<and> j = 3 \<and> ai_result ev (length (trace w) + 2) = AiObject l s t \<longrightarrow>
            fst (fetch ev ApiAiInsights w)
              = json_response
                  (JSON_stringify (JObj [(''insights'', JStr fallback_message),
                     (''generated_at'', JStr (js_now ev (length (trace w) + 4)))]))
                  corsHeaders)"
proof -
  have rejected: "fst (handler ev r w) = Inl (Error m)" if "(r, k, j) \<in> set write_back_call"
  proof -
    from that consider "r = ApiStats" "k = ''stats''" "j = 5"
      | "r = ApiTopIssues" "k = ''top-issues''" "j = 2"
      | "r = ApiRepeatUsers" "k = ''repeat-users''" "j = 2"
      | "r = ApiLongestUnresolved" "k = ''longest-unresolved''" "j = 2"
      by (auto simp add: write_back_call_def)
    then show ?thesis
    proof cases
      case 1
      with assms getStats_write_rejected [where hs = corsHeaders] show ?thesis
        by (simp add: handler_def)
    next
      case 2
      with assms simple_view_write_rejected(1) [where hs = corsHeaders] show ?thesis
        by (simp add: handler_def)
    next
      case 3
      with assms simple_view_write_rejected(2) [where hs = corsHeaders] show ?thesis
        by (simp add: handler_def)
    next
      case 4
      with assms simple_view_write_rejected(3) [where hs = corsHeaders] show ?thesis
        by (simp add: handler_def)
    qed
  qed
  have served: "fst (fetch ev r w) = error_response (Error m) \<and> status (fst (fetch ev r w)) = 500
      \<and> body (fst (fetch ev r w)) = JSON_stringify (JObj [(''error'', JStr m)])
      \<and> (\<forall>b. fst (fetch ev r w) \<noteq> json_response b corsHeaders)"
    if "fst (handler ev r w) = Inl (Error m)"
  proof -
    have e: "fst (fetch ev r w) = error_response (Error m)"
      using that by (cases "handler ev r w") (simp add: fetch_def)
    have "status (error_response (Error m)) \<noteq> status (json_response b corsHeaders)" for b
      by (simp add: error_response_def json_response_def)
    then have "\<forall>b. error_response (Error m) \<noteq> json_response b corsHeaders"
      by metis
    moreover have "body (error_response (Error m)) = JSON_stringify (JObj [(''error'', JStr m)])"
      by (simp only: error_response_def Response.simps error.sel)
    ultimately show ?thesis
      by (simp only: e status_error_response simp_thms)
  qed
  have insights: "fst (fetch ev ApiAiInsights w)
      = json_response
          (JSON_stringify (JObj [(''insights'', JStr fallback_message),
             (''generated_at'', JStr (js_now ev (length (trace w) + 4)))]))
          corsHeaders"
    if "k = ''ai-insights''" "j = 3" "ai_result ev (length (trace w) + 2) = AiObject l s t"
  proof -
    have "fst (getAIInsights ev corsHeaders w)
      = Inr (json_response
          (JSON_stringify (insights_json fallback_message (js_now ev (length (trace w) + 4))))
          corsHeaders)"
      using assms that getAIInsights_write_rejected [where hs = corsHeaders] by simp
    then show ?thesis
      by (cases "getAIInsights ev corsHeaders w")
        (simp add: fetch_def handler_def insights_json_def del: JSON_stringify.simps)
  qed
  from rejected served insights show ?thesis
    by blast
qed

theorem cache_write_failure_not_swallowed_witness:
  "(fst (handler (failing_at 2) ApiTopIssues sample_world) = Inl (Error ''unavailable'')
    \<and> fst (fetch (failing_at 2) ApiTopIssues sample_world) = error_response (Error ''unavailable'')
    \<and> status (fst (fetch (failing_at 2) ApiTopIssues sample_world)) = 500)
   \<and> fst (fetch (failing_at 3) ApiAiInsights sample_world)
       = json_response
           (JSON_stringify (JObj [(''insights'', JStr fallback_message),
              (''generated_at'', JStr (js_now (failing_at 3) (length (trace sample_world) + 4)))]))
           corsHeaders"
proof -
  have a: "\<forall>i < 2. fault (failing_at 2) (length (trace sample_world) + i) = None"
    by (simp add: failing_at_def sample_world_def)
  have b: "\<not> truthy (map_option fst (map_of (kv sample_world) ''top-issues''))"
    by (simp add: sample_world_def truthy_def)
  have c: "fault (failing_at 2) (length (trace sample_world) + 2) = Some ''unavailable''"
    by (simp add: failing_at_def sample_world_def)
  have d: "(ApiTopIssues, ''top-issues'', 2) \<in> set write_back_call"
    by (simp add: write_back_call_def)
  have a': "\<forall>i < 3. fault (failing_at 3) (length (trace sample_world) + i) = None"
    by (simp add: failing_at_def sample_world_def)
  have b': "\<not> truthy (map_option fst (map_of (kv sample_world) ''ai-insights''))"
    by (simp add: sample_world_def truthy_def)
  have c': "fault (failing_at 3) (length (trace sample_world) + 3) = Some ''unavailable''"
    by (simp add: failing_at_def sample_world_def)
  have d': "''ai-insights'' = ''ai-insights'' \<and> (3::nat) = 3
      \<and> ai_result (failing_at 3) (length (trace sample_world) + 2)
          = AiObject (Some ''NEGATIVE'') (Some (9 / 10)) (Some ''Three insights'')"
    by (simp add: failing_at_def quiet_def)
  from cache_write_failure_not_swallowed [OF a b c, where r = ApiTopIssues] d
    cache_write_failure_not_swallowed [OF a' b' c', of _ "Some ''NEGATIVE''" "Some (9 / 10)"
      "Some ''Three insights''"] d'
  show ?thesis by blast
qed

text \<open>The claim as written fails: on a miss of the top issues with the cache write
  rejecting, the view is computed, then the request is answered with status 500 and the
  error instead of the computed payload.\<close>

theorem cache_write_failure_counterexample:
  "fst (getTopIssues (failing_at 2) corsHeaders sample_world) = Inl (Error ''unavailable'')
   \<and> fst (fetch (failing_at 2) ApiTopIssues sample_world) = error_response (Error ''unavailable'')
   \<and> status (fst (fetch (failing_at 2) ApiTopIssues sample_world)) = 500
   \<and> body (fst (fetch (failing_at 2) ApiTopIssues sample_world))
       = JSON_stringify (JObj [(''error'', JStr ''unavailable'')])"
proof -
  have "\<forall>i < 2. fault (failing_at 2) (length (trace sample_world) + i) = None"
    and "fault (failing_at 2) (length (trace sample_world) + 2) = Some ''unavailable''"
    and "\<not> truthy (map_option fst (map_of (kv sample_world) ''top-issues''))"
    by (simp_all add: failing_at_def sample_world_def truthy_def)
  then have h: "fst (getTopIssues (failing_at 2) corsHeaders sample_world)
      = Inl (Error ''unavailable'')"
    by (rule simple_view_write_rejected(1))
  then have "fst (fetch (failing_at 2) ApiTopIssues sample_world)
      = error_response (Error ''unavailable'')"
    by (cases "getTopIssues (failing_at 2) corsHeaders sample_world")
      (simp add: fetch_def handler_def)
  with h show ?thesis
    by (simp add: error_response_def)
qed

subsection \<open>Seeding: the invalidation comes first\<close>

lemma analyzeSentiment_world:
  "snd (analyzeSentiment ev text w)
     = logged (AiRun ''@cf/huggingface/distilbert-sst-2-int8'' (substring text 0 500)) w"
  by (simp add: analyzeSentiment_def io_defs prop_label_def prop_score_def Let_def
      split: option.splits ai_value.splits)

lemma analyzeSentiment_resolves: "\<exists>s. fst (analyzeSentiment ev text w) = Inr s"
  by (simp add: analyzeSentiment_def io_defs prop_label_def prop_score_def Let_def
      split: option.splits ai_value.splits)

lemma analyzeSentiment_cases:
  assumes "analyzeSentiment ev t w = (r, w')"
  shows "(\<exists>s. r = Inr s)
       \<and> w' = logged (AiRun ''@cf/huggingface/distilbert-sst-2-int8'' (substring t 0 500)) w"
  using assms analyzeSentiment_resolves [of ev t w] analyzeSentiment_world [of ev t w]
  by auto

lemma seed_one_calls:
  "trace (snd (seed_one ev f w)) = trace w @ seed_calls [f]"
  "kv (snd (seed_one ev f w)) = kv w"
  by (auto simp add: seed_one_def await_def DB_insert_def logged_def resolve_def seed_calls_def
      Let_def split: option.splits prod.splits sum.splits dest!: analyzeSentiment_cases)

lemma seed_one_rows:
  "fst (seed_one ev f w) = Inr x \<Longrightarrow> length (rows (snd (seed_one ev f w))) = Suc (length (rows w))"
  "fst (seed_one ev f w) = Inl e \<Longrightarrow> rows (snd (seed_one ev f w)) = rows w"
  by (auto simp add: seed_one_def await_def DB_insert_def logged_def resolve_def
      Let_def split: option.splits prod.splits sum.splits dest!: analyzeSentiment_cases)

lemma seed_loop_calls:
  "trace (snd (seed_loop ev ms ins errs w)) = trace w @ seed_calls ms
   \<and> kv (snd (seed_loop ev ms ins errs w)) = kv w"
proof (induction ms arbitrary: ins errs w)
  case Nil
  show ?case by (simp add: seed_calls_def)
next
  case (Cons f ms)
  have split_calls: "seed_calls (f # ms) = seed_calls [f] @ seed_calls ms"
    by (simp add: seed_calls_def)
  show ?case
  proof (cases "seed_one ev f w")
    case (Pair res w')
    have w': "trace w' = trace w @ seed_calls [f]" "kv w' = kv w"
      using seed_one_calls [where ev = ev and f = f and w = w] Pair by simp_all
    show ?thesis
    proof (cases res)
      case (Inl e)
      with Pair Cons.IH [where ins = ins and errs = "errs @ [(m_title f, message e)]" and w = w'] w' show ?thesis
        by (simp add: split_calls)
    next
      case (Inr x)
      with Pair Cons.IH [where ins = "ins @ [x]" and errs = errs and w = w'] w' show ?thesis
        by (simp add: split_calls)
    qed
  qed
qed

lemma seed_loop_rows:
  "length (rows w) \<le> length (rows (snd (seed_loop ev ms ins errs w)))"
proof (induction ms arbitrary: ins errs w)
  case Nil
  show ?case by simp
next
  case (Cons f ms)
  show ?case
  proof (cases "seed_one ev f w")
    case (Pair res w')
    show ?thesis
    proof (cases res)
      case (Inl e)
      with Pair seed_one_rows(2) [where ev = ev and f = f and w = w and e = e] have "rows w' = rows w"
        by simp
      with Pair Inl Cons.IH [where ins = ins and errs = "errs @ [(m_title f, message e)]" and w = w'] show ?thesis
        by simp
    next
      case (Inr x)
      with Pair seed_one_rows(1) [where ev = ev and f = f and w = w and x = x] have "length (rows w') = Suc (length (rows w))"
        by simp
      with Pair Inr Cons.IH [where ins = "ins @ [x]" and errs = errs and w = w'] show ?thesis
        by simp
    qed
  qed
qed

lemma seed_calls_no_cache: "c \<in> set (seed_calls ms) \<Longrightarrow> \<not> is_cache_call c"
  by (auto simp add: seed_calls_def)

lemma five_deletes:
  assumes "fault ev (length (trace w)) = None" "fault ev (Suc (length (trace w))) = None"
    "fault ev (Suc (Suc (length (trace w)))) = None"
    "fault ev (Suc (Suc (Suc (length (trace w))))) = None"
    "fault ev (Suc (Suc (Suc (Suc (length (trace w)))))) = None"
  shows "seedDatabase ev hs w =
     (case seed_loop ev mockFeedback [] []
        (w\<lparr>kv := AList.delete ''ai-insights'' (AList.delete ''longest-unresolved''
                   (AList.delete ''repeat-users'' (AList.delete ''top-issues''
                     (AList.delete ''stats'' (kv w))))),
           trace := trace w @ map CacheDelete invalidated_keys\<rparr>) of
        ((inserted, errors), w') \<Rightarrow>
          (Inr (json_response (JSON_stringify (seed_json inserted errors)) hs), w'))"
  using assms
  by (simp add: seedDatabase_def await_def CACHE_delete_def logged_def resolve_def
      invalidated_keys_def split: prod.splits)

lemma delete_rejected:
  assumes "i < 5" and "\<forall>j < i. fault ev (length (trace w) + j) = None"
    and "fault ev (length (trace w) + i) = Some m"
  shows "fst (seedDatabase ev hs w) = Inl (Error m)
       \<and> rows (snd (seedDatabase ev hs w)) = rows w
       \<and> trace (snd (seedDatabase ev hs w)) = trace w @ map CacheDelete (take (Suc i) invalidated_keys)"
proof -
  from assms(1) consider "i = 0" | "i = 1" | "i = 2" | "i = 3" | "i = 4"
    by linarith
  then show ?thesis
  proof cases
    case 1
    with assms(3) show ?thesis
      by (simp add: seedDatabase_def await_def CACHE_delete_def logged_def invalidated_keys_def)
  next
    case 2
    with assms(2) [rule_format, of 0] assms(3) show ?thesis
      by (simp add: seedDatabase_def await_def CACHE_delete_def logged_def invalidated_keys_def)
  next
    case 3
    with assms(2) [rule_format, of 0] assms(2) [rule_format, of 1] assms(3) show ?thesis
      by (simp add: seedDatabase_def await_def CACHE_delete_def logged_def invalidated_keys_def
          eval_nat_numeral)
  next
    case 4
    with assms(2) [rule_format, of 0] assms(2) [rule_format, of 1] assms(2) [rule_format, of 2]
      assms(3) show ?thesis
      by (simp add: seedDatabase_def await_def CACHE_delete_def logged_def invalidated_keys_def
          eval_nat_numeral)
  next
    case 5
    with assms(2) [rule_format, of 0] assms(2) [rule_format, of 1] assms(2) [rule_format, of 2]
      assms(2) [rule_format, of 3] assms(3) show ?thesis
      by (simp add: seedDatabase_def await_def CACHE_delete_def logged_def invalidated_keys_def
          eval_nat_numeral)
  qed
qed

lemma seed_one_resolves:
  "fault ev (Suc (length (trace w))) = None \<Longrightarrow> \<exists>y. fst (seed_one ev f w) = Inr y"
  by (auto simp add: seed_one_def await_def DB_insert_def logged_def resolve_def
      Let_def split: option.splits prod.splits sum.splits dest!: analyzeSentiment_cases)

lemma seed_loop_all_inserted:
  assumes "\<forall>n. fault ev n = None"
  shows "length (rows (snd (seed_loop ev ms ins errs w))) = length (rows w) + length ms"
proof (induction ms arbitrary: ins errs w)
  case Nil
  show ?case by simp
next
  case (Cons f ms)
  obtain y where y: "fst (seed_one ev f w) = Inr y"
    using assms seed_one_resolves [of ev w f] by auto
  then have "length (rows (snd (seed_one ev f w))) = Suc (length (rows w))"
    by (rule seed_one_rows(1))
  with y Cons.IH [where ins = "ins @ [y]" and errs = errs and w = "snd (seed_one ev f w)"]
  show ?case
    by (cases "seed_one ev f w") simp
qed

text \<open>
  C1, as the code has it. A seeding first deletes the five keys \<open>stats\<close>, \<open>top-issues\<close>,
  \<open>repeat-users\<close>, \<open>longest-unresolved\<close> and \<open>ai-insights\<close>, in this order, and only then
  classifies and inserts the records, one after the other; after the five deletes it makes
  no call on the cache, and it resolves after the last insert. So every cache delete of a
  seeding precedes every write of that seeding. When one of the deletes rejects, the
  handler rejects with that error and no record is written.
\<close>

theorem seedDatabase_deletes_before_writes:
  "((\<forall>i < 5. fault ev (length (trace w) + i) = None) \<longrightarrow>
       trace (snd (seedDatabase ev hs w))
         = trace w @ map CacheDelete invalidated_keys @ seed_calls mockFeedback
     \<and> (\<forall>c \<in> set (seed_calls mockFeedback). \<not> is_cache_call c)
     \<and> (\<exists>resp. fst (seedDatabase ev hs w) = Inr resp)
     \<and> (\<forall>k \<in> set invalidated_keys. map_of (kv (snd (seedDatabase ev hs w))) k = None))
   \<and> (i < 5 \<and> (\<forall>j < i. fault ev (length (trace w) + j) = None)
        \<and> fault ev (length (trace w) + i) = Some m \<longrightarrow>
       fst (seedDatabase ev hs w) = Inl (Error m)
     \<and> rows (snd (seedDatabase ev hs w)) = rows w
     \<and> trace (snd (seedDatabase ev hs w))
         = trace w @ map CacheDelete (take (Suc i) invalidated_keys))"
proof -
  have complete: "trace (snd (seedDatabase ev hs w))
         = trace w @ map CacheDelete invalidated_keys @ seed_calls mockFeedback
     \<and> (\<forall>c \<in> set (seed_calls mockFeedback). \<not> is_cache_call c)
     \<and> (\<exists>resp. fst (seedDatabase ev hs w) = Inr resp)
     \<and> (\<forall>k \<in> set invalidated_keys. map_of (kv (snd (seedDatabase ev hs w))) k = None)"
    if ok: "\<forall>i < 5. fault ev (length (trace w) + i) = None"
  proof -
    let ?w5 = "w\<lparr>kv := AList.delete ''ai-insights'' (AList.delete ''longest-unresolved''
                   (AList.delete ''repeat-users'' (AList.delete ''top-issues''
                     (AList.delete ''stats'' (kv w))))),
           trace := trace w @ map CacheDelete invalidated_keys\<rparr>"
    have f: "fault ev (length (trace w)) = None" "fault ev (Suc (length (trace w))) = None"
      "fault ev (Suc (Suc (length (trace w)))) = None"
      "fault ev (Suc (Suc (Suc (length (trace w))))) = None"
      "fault ev (Suc (Suc (Suc (Suc (length (trace w)))))) = None"
      using ok [rule_format, of 0] ok [rule_format, of 1] ok [rule_format, of 2]
        ok [rule_format, of 3] ok [rule_format, of 4]
      by (simp_all add: eval_nat_numeral)
    obtain inserted errors w' where loop: "seed_loop ev mockFeedback [] [] ?w5 = ((inserted, errors), w')"
      by (metis surj_pair)
    have run: "seedDatabase ev hs w
        = (Inr (json_response (JSON_stringify (seed_json inserted errors)) hs), w')"
      using five_deletes [OF f, of hs] loop by simp
    have w': "trace w' = trace ?w5 @ seed_calls mockFeedback" "kv w' = kv ?w5"
      using seed_loop_calls [of ev mockFeedback "[]" "[]" ?w5] loop by simp_all
    have "\<forall>k \<in> set invalidated_keys. map_of (kv ?w5) k = None"
      by (simp add: invalidated_keys_def delete_conv')
    with run w' show ?thesis
      by (simp add: seed_calls_no_cache)
  qed
  from complete delete_rejected [of i ev w m hs] show ?thesis
    by blast
qed

theorem seedDatabase_deletes_before_writes_witness:
  "(trace (snd (seedDatabase quiet corsHeaders empty_world))
      = trace empty_world @ map CacheDelete invalidated_keys @ seed_calls mockFeedback
    \<and> (\<exists>resp. fst (seedDatabase quiet corsHeaders empty_world) = Inr resp))
   \<and> (fst (seedDatabase (failing_at 3) corsHeaders empty_world) = Inl (Error ''unavailable'')
    \<and> rows (snd (seedDatabase (failing_at 3) corsHeaders empty_world)) = rows empty_world)"
proof -
  have a: "\<forall>i < 5. fault quiet (length (trace empty_world) + i) = None"
    by (simp add: quiet_def)
  have b: "(3::nat) < 5 \<and> (\<forall>j < 3. fault (failing_at 3) (length (trace empty_world) + j) = None)
      \<and> fault (failing_at 3) (length (trace empty_world) + 3) = Some ''unavailable''"
    by (simp add: failing_at_def empty_world_def)
  from seedDatabase_deletes_before_writes [of quiet empty_world corsHeaders] a
    seedDatabase_deletes_before_writes [of "failing_at 3" empty_world corsHeaders 3 "''unavailable''"] b
  show ?thesis by blast
qed

text \<open>The claim as written fails: in a seeding where every call succeeds, the delete of
  \<open>stats\<close> is the first call and the first insert the seventh, all 25 records are written,
  and no cache delete follows the fifth call.\<close>

theorem seedDatabase_invalidation_counterexample:
  "trace (snd (seedDatabase quiet corsHeaders empty_world)) ! 0 = CacheDelete ''stats''
   \<and> trace (snd (seedDatabase quiet corsHeaders empty_world)) ! 6
       = DbInsert ''Dashboard loading takes 5+ seconds''
   \<and> length (rows (snd (seedDatabase quiet corsHeaders empty_world))) = 25
   \<and> filter is_cache_delete (drop 5 (trace (snd (seedDatabase quiet corsHeaders empty_world)))) = []"
proof -
  let ?w5 = "empty_world\<lparr>kv := AList.delete ''ai-insights'' (AList.delete ''longest-unresolved''
                   (AList.delete ''repeat-users'' (AList.delete ''top-issues''
                     (AList.delete ''stats'' (kv empty_world))))),
           trace := trace empty_world @ map CacheDelete invalidated_keys\<rparr>"
  have q: "\<forall>n. fault quiet n = None"
    by (simp add: quiet_def)
  obtain inserted errors w' where loop:
    "seed_loop quiet mockFeedback [] [] ?w5 = ((inserted, errors), w')"
    by (metis surj_pair)
  have run: "snd (seedDatabase quiet corsHeaders empty_world) = w'"
    using five_deletes [of quiet empty_world corsHeaders] q loop by simp
  have t: "trace w' = map CacheDelete invalidated_keys @ seed_calls mockFeedback"
    using seed_loop_calls [of quiet mockFeedback "[]" "[]" ?w5] loop
    by (simp add: empty_world_def)
  have n: "length (rows w') = 25"
    using seed_loop_all_inserted [OF q, of mockFeedback "[]" "[]" ?w5] loop
    by (simp add: empty_world_def mockFeedback_def)
  have no_delete: "filter is_cache_delete (seed_calls ms) = []" for ms
    by (induction ms) (simp_all add: seed_calls_def)
  have first: "seed_calls mockFeedback ! 1 = DbInsert ''Dashboard loading takes 5+ seconds''"
    by (simp add: seed_calls_def mockFeedback_def)
  have "(map CacheDelete invalidated_keys @ seed_calls mockFeedback) ! 6
      = seed_calls mockFeedback ! 1"
    by (simp add: nth_append invalidated_keys_def)
  with first t n no_delete run show ?thesis
    by (simp add: invalidated_keys_def)
qed

subsection \<open>The repeat users\<close>

lemma set_order_by_desc: "set (order_by_desc f xs) = set xs"
  by (simp add: order_by_desc_def)

lemma length_order_by_desc: "length (order_by_desc f xs) = length xs"
  by (simp add: order_by_desc_def)

lemma distinct_order_by_desc: "distinct (order_by_desc f xs) = distinct xs"
  by (simp add: order_by_desc_def)

lemma sorted_order_by_desc: "sorted_wrt (\<lambda>a b. f b \<le> f a) (order_by_desc f xs)"
proof -
  have "sorted_wrt (\<lambda>a b. f a \<le> f b) (sort_key f (rev xs))"
    using sorted_sort_key [of f "rev xs"] by (simp add: sorted_map)
  then show ?thesis
    by (simp add: order_by_desc_def sorted_wrt_rev)
qed

lemma group_by_keys:
  "distinct (map fst (group_by key rs))"
  "set (map fst (group_by key rs)) = key ` set rs"
  "g \<in> set (group_by key rs) \<Longrightarrow> snd g = filter (\<lambda>r. key r = fst g) rs"
  by (auto simp add: group_by_def comp_def)

lemma unresolved_of_filter:
  "filter (\<lambda>r. user_email r = Some u)
     (filter (\<lambda>r. resolved_at r = None \<and> user_email r \<noteq> None) rs) = unresolved_of u rs"
  by (induction rs) (auto simp add: unresolved_of_def)

text \<open>The rows before sorting and cutting.\<close>

lemma repeat_rows_unfold:
  "sql_repeat_users rs =
     take 5 (order_by_desc (\<lambda>x. fst (snd x))
       (map (\<lambda>g. (fst g, length (snd g), join (map title (snd g)) '' | ''))
          (filter (\<lambda>g. length (snd g) > 1)
             (group_by user_email
                (filter (\<lambda>r. resolved_at r = None \<and> user_email r \<noteq> None) rs)))))"
  by (simp add: sql_repeat_users_def group_concat_def Let_def)

lemma repeat_rows_sound:
  assumes "g \<in> set (group_by user_email
      (filter (\<lambda>r. resolved_at r = None \<and> user_email r \<noteq> None) rs))"
  shows "\<exists>u. fst g = Some u \<and> snd g = unresolved_of u rs"
proof -
  let ?sel = "filter (\<lambda>r. resolved_at r = None \<and> user_email r \<noteq> None) rs"
  have "fst g \<in> set (map fst (group_by user_email ?sel))"
    using assms by simp
  then have "fst g \<in> user_email ` set ?sel"
    by (simp only: group_by_keys(2))
  then obtain u where u: "fst g = Some u"
    by auto
  have "snd g = filter (\<lambda>r. user_email r = fst g) ?sel"
    using assms by (rule group_by_keys(3))
  then show ?thesis
    by (simp only: u unresolved_of_filter) (simp add: u)
qed

lemma repeat_rows_complete:
  assumes "2 \<le> length (unresolved_of u rs)"
  shows "(Some u, unresolved_of u rs) \<in> set (group_by user_email
      (filter (\<lambda>r. resolved_at r = None \<and> user_email r \<noteq> None) rs))"
proof -
  let ?sel = "filter (\<lambda>r. resolved_at r = None \<and> user_email r \<noteq> None) rs"
  from assms obtain r where "r \<in> set (unresolved_of u rs)"
    by (cases "unresolved_of u rs") auto
  then have "r \<in> set ?sel" "user_email r = Some u"
    by (auto simp add: unresolved_of_def)
  then have "Some u \<in> user_email ` set ?sel"
    by force
  then have "Some u \<in> set (rev (sort (remdups (map user_email ?sel))))"
    by simp
  then have "(Some u, filter (\<lambda>r. user_email r = Some u) ?sel) \<in> set (group_by user_email ?sel)"
    unfolding group_by_def by (simp add: image_iff)
  then show ?thesis
    by (simp only: unresolved_of_filter)
qed

text \<open>
  C4, as the code has it. The view groups the unresolved records that have a user
  identifier by that identifier and keeps exactly the groups of two records and more; it
  returns at most five of them, no user twice, ordered by group size descending, and a
  kept group that is left out is no larger than any group returned. Each row carries the
  user identifier, the size of the group and the titles of all records of the group, in
  table order and joined by \<open>' | '\<close>: a title that several records of the group share
  appears once for each of them.
\<close>

theorem repeat_users_view:
  "length (sql_repeat_users rs) \<le> 5
   \<and> distinct (map fst (sql_repeat_users rs))
   \<and> sorted_wrt (\<lambda>a b. fst (snd b) \<le> fst (snd a)) (sql_repeat_users rs)
   \<and> (\<forall>x \<in> set (sql_repeat_users rs).
        \<exists>u. x = repeat_row u rs \<and> 2 \<le> length (unresolved_of u rs))
   \<and> (\<forall>u. 2 \<le> length (unresolved_of u rs) \<and> repeat_row u rs \<notin> set (sql_repeat_users rs)
        \<longrightarrow> length (sql_repeat_users rs) = 5
          \<and> (\<forall>x \<in> set (sql_repeat_users rs). length (unresolved_of u rs) \<le> fst (snd x)))"
proof -
  let ?sel = "filter (\<lambda>r. resolved_at r = None \<and> user_email r \<noteq> None) rs"
  let ?row = "\<lambda>g. (fst g, length (snd g), join (map title (snd g)) '' | '')"
  let ?kept = "filter (\<lambda>g. length (snd g) > 1) (group_by user_email ?sel)"
  let ?out = "map ?row ?kept"
  let ?sorted = "order_by_desc (\<lambda>x. fst (snd x)) ?out"
  have res: "sql_repeat_users rs = take 5 ?sorted"
    by (rule repeat_rows_unfold)
  have len: "length (sql_repeat_users rs) \<le> 5"
    by (simp add: res)
  have eq: "map fst ?out = map fst ?kept"
    by (simp add: comp_def)
  have "distinct (map fst ?kept)"
    using group_by_keys(1) [of user_email ?sel] by (rule distinct_map_filter)
  then have d_out: "distinct (map fst ?out)"
    by (simp only: eq)
  then have "distinct ?out" "inj_on fst (set ?out)"
    by (simp_all only: distinct_map)
  then have "distinct (map fst ?sorted)"
    by (simp only: distinct_map distinct_order_by_desc set_order_by_desc)
  then have dist: "distinct (map fst (sql_repeat_users rs))"
    unfolding res take_map [symmetric] by (rule distinct_take)
  have s: "sorted_wrt (\<lambda>a b. fst (snd b) \<le> fst (snd a)) ?sorted"
    by (rule sorted_order_by_desc)
  then have srt: "sorted_wrt (\<lambda>a b. fst (snd b) \<le> fst (snd a)) (sql_repeat_users rs)"
    unfolding res by (rule sorted_wrt_take)
  have sound: "\<exists>u. x = repeat_row u rs \<and> 2 \<le> length (unresolved_of u rs)"
    if "x \<in> set (sql_repeat_users rs)" for x
  proof -
    from that have "x \<in> set ?sorted"
      unfolding res by (rule in_set_takeD)
    then have "x \<in> set ?out"
      by (simp only: set_order_by_desc)
    then obtain g where g: "g \<in> set (group_by user_email ?sel)" "length (snd g) > 1" "x = ?row g"
      by auto
    from repeat_rows_sound [OF g(1)] obtain u where "fst g = Some u" "snd g = unresolved_of u rs"
      by blast
    with g(2,3) show ?thesis
      by (auto simp add: repeat_row_def)
  qed
  have complete: "length (sql_repeat_users rs) = 5
      \<and> (\<forall>x \<in> set (sql_repeat_users rs). length (unresolved_of u rs) \<le> fst (snd x))"
    if big: "2 \<le> length (unresolved_of u rs)"
      and out: "repeat_row u rs \<notin> set (sql_repeat_users rs)" for u
  proof -
    have "(Some u, unresolved_of u rs) \<in> set ?kept"
      using repeat_rows_complete [OF big] big by simp
    then have "?row (Some u, unresolved_of u rs) \<in> ?row ` set ?kept"
      by (rule imageI)
    then have "?row (Some u, unresolved_of u rs) \<in> set ?out"
      by (simp only: set_map)
    then have "repeat_row u rs \<in> set ?sorted"
      by (simp only: set_order_by_desc repeat_row_def fst_conv snd_conv)
    then have "repeat_row u rs \<in> set (take 5 ?sorted) \<union> set (drop 5 ?sorted)"
      by (simp only: set_append [symmetric] append_take_drop_id)
    with out have dropped: "repeat_row u rs \<in> set (drop 5 ?sorted)"
      by (simp add: res)
    then have "5 < length ?sorted"
      by (cases "5 < length ?sorted") auto
    then have l5: "length (sql_repeat_users rs) = 5"
      by (simp add: res)
    have "length (unresolved_of u rs) \<le> fst (snd x)" if "x \<in> set (sql_repeat_users rs)" for x
    proof -
      from that have "x \<in> set (take 5 ?sorted)"
        by (simp only: res)
      from sorted_wrt_take_drop [OF s this dropped] show ?thesis
        by (simp add: repeat_row_def)
    qed
    with l5 show ?thesis
      by blast
  qed
  from len dist srt sound complete show ?thesis
    by blast
qed

lemma busy_rows_view:
  "sql_repeat_users busy_rows =
     [(Some ''f@x'', 2, ''A | B''), (Some ''e@x'', 2, ''A | B''), (Some ''d@x'', 2, ''A | B''),
      (Some ''c@x'', 2, ''A | B''), (Some ''b@x'', 2, ''A | B'')]"
  by code_simp

theorem repeat_users_view_witness:
  "length (sql_repeat_users busy_rows) = 5
   \<and> length (unresolved_of ''a@x'' busy_rows) \<le> fst (snd (Some ''f@x'', 2::nat, ''A | B''))
   \<and> (\<exists>u. (Some ''f@x'', 2, ''A | B'') = repeat_row u busy_rows
          \<and> 2 \<le> length (unresolved_of u busy_rows))"
proof -
  have a: "2 \<le> length (unresolved_of ''a@x'' busy_rows)"
    by (simp add: unresolved_of_def busy_rows_def sample_row_def)
  have b: "repeat_row ''a@x'' busy_rows \<notin> set (sql_repeat_users busy_rows)"
    by (simp add: busy_rows_view repeat_row_def)
  have c: "(Some ''f@x'', 2, ''A | B'') \<in> set (sql_repeat_users busy_rows)"
    by (simp add: busy_rows_view)
  from repeat_users_view [of busy_rows] a b c show ?thesis
    by blast
qed

text \<open>The claim as written fails: for a user with two unresolved records under the one
  title \<open>A\<close> the code returns the issues \<open>A | A\<close>, where the concatenation of the distinct
  titles is \<open>A\<close>.\<close>

theorem repeat_users_counterexample:
  "sql_repeat_users sample_rows = [(Some ''u@x'', 2, ''A | A'')]
   \<and> repeat_users_spec sample_rows = [(Some ''u@x'', 2, ''A'')]
   \<and> sql_repeat_users sample_rows \<noteq> repeat_users_spec sample_rows"
  by code_simp

subsection \<open>The average sentiment\<close>

lemma round_even_of_int: "round_even (of_int k) = k"
  by (simp add: round_even_def)

lemma round_even_close: "\<bar>of_int (round_even y) - y\<bar> \<le> 1 / 2"
proof -
  have "of_int \<lfloor>y\<rfloor> \<le> y" "y < of_int \<lfloor>y\<rfloor> + 1"
    by linarith+
  then show ?thesis
    by (auto simp add: round_even_def Let_def)
qed

lemma pow2_neg: "e \<le> 0 \<Longrightarrow> pow2 e = 1 / 2 ^ nat (- e)"
  by (cases "e = 0") (simp_all add: pow2_def)

text \<open>A non-negative integer below \<open>2 ^ 53\<close> is a double.\<close>

lemma double_of_int_exact:
  assumes "0 \<le> k" and "k < 2 ^ 53"
  shows "double_of (of_int k) = of_int k"
proof (cases "k = 0")
  case True
  then show ?thesis by (simp add: double_of_def)
next
  case False
  with assms(1) have pos: "0 < k" by simp
  define b where "b = bitlen k"
  have b1: "1 \<le> b"
    using pos bitlen_eq_zero_iff [of k] bitlen_nonneg [of k] by (simp add: b_def)
  have b53: "b \<le> 53"
    using assms(2) bitlen_le_iff_power [of k 53] by (simp add: b_def)
  have ex: "expo (of_int k) = b - 1"
    using pos by (simp add: expo_def b_def)
  define s where "s = nat (53 - b)"
  have e: "max (expo (of_int k)) (- 1022) - 52 = - int s"
    using b1 b53 by (simp add: ex s_def)
  have p: "pow2 (- int s) = 1 / 2 ^ s"
    by (simp add: pow2_neg)
  have "of_int k / pow2 (- int s) = (of_int (k * 2 ^ s) :: rat)"
    by (simp add: p)
  then have r: "round_even (of_int k / pow2 (- int s)) = k * 2 ^ s"
    by (simp only: round_even_of_int)
  have "double_of (of_int k) = of_int (k * 2 ^ s) * pow2 (- int s)"
    using pos by (simp add: double_of_def Let_def e r del: of_int_mult of_int_power)
  then show ?thesis
    by (simp add: p)
qed

lemma round_double_int_exact:
  assumes "0 \<le> k" and "k < 2 ^ 53"
  shows "round_double (of_int k) = Finite (of_int k)"
proof -
  have "(of_int k :: rat) < of_int (2 ^ 53)"
    using assms(2) by (simp only: of_int_less_iff)
  then have "\<bar>of_int k :: rat\<bar> < 2 ^ 1024"
    using assms(1) by simp
  then show ?thesis
    using assms by (simp add: round_double_def double_of_int_exact)
qed

text \<open>The \<open>reduce\<close> over scores adds exactly.\<close>

lemma foldl_dadd_exact:
  assumes "\<forall>x \<in> set xs. \<exists>k. x = of_int k \<and> 0 \<le> k \<and> k \<le> 8"
    and "0 \<le> a" and "a + 8 * int (length xs) < 2 ^ 53"
  shows "foldl (\<lambda>sum score. dadd sum (Finite score)) (Finite (of_int a)) xs
       = Finite (of_int a + sum_list xs)"
  using assms
proof (induction xs arbitrary: a)
  case Nil
  then show ?case by simp
next
  case (Cons x xs)
  from Cons.prems(1) obtain k where k: "x = of_int k" "0 \<le> k" "k \<le> 8"
    by auto
  have "dadd (Finite (of_int a)) (Finite x) = round_double (of_int (a + k))"
    by (simp add: k(1))
  also have "\<dots> = Finite (of_int (a + k))"
    using Cons.prems(2,3) k(2,3) by (intro round_double_int_exact) simp_all
  finally have step: "dadd (Finite (of_int a)) (Finite x) = Finite (of_int (a + k))" .
  have "foldl (\<lambda>sum score. dadd sum (Finite score)) (Finite (of_int (a + k))) xs
      = Finite (of_int (a + k) + sum_list xs)"
    using Cons.prems k(2,3) by (intro Cons.IH) simp_all
  with step show ?case
    by (simp add: k(1))
qed

text \<open>Rounding a rational between 1 and 16 to a double moves it by \<open>2 ^ -50\<close> at most.\<close>

lemma double_of_close:
  assumes "1 \<le> q" and "q < 16"
  shows "\<bar>double_of q - q\<bar> \<le> 1 / 2 ^ 50"
proof -
  define b where "b = bitlen \<lfloor>q\<rfloor>"
  have fl: "1 \<le> \<lfloor>q\<rfloor>" "\<lfloor>q\<rfloor> < 2 ^ 4"
    using assms by (simp_all add: le_floor_iff floor_less_iff)
  have b1: "1 \<le> b"
    using fl(1) bitlen_eq_zero_iff [of "\<lfloor>q\<rfloor>"] bitlen_nonneg [of "\<lfloor>q\<rfloor>"]
    by (simp add: b_def)
  have b4: "b \<le> 4"
    using fl(2) bitlen_le_iff_power [of "\<lfloor>q\<rfloor>" 4] by (simp add: b_def)
  define s where "s = nat (53 - b)"
  have s49: "49 \<le> s"
    using b4 by (simp add: s_def)
  have e: "max (expo q) (- 1022) - 52 = - int s"
    using assms(1) b1 b4 by (simp add: expo_def b_def s_def)
  have p: "pow2 (- int s) = 1 / 2 ^ s"
    by (simp add: pow2_neg)
  define y where "y = q / pow2 (- int s)"
  have d: "double_of q = of_int (round_even y) * (1 / 2 ^ s)"
    using assms(1) by (simp add: double_of_def Let_def e y_def p)
  have q: "q = y * (1 / 2 ^ s)"
    by (simp add: y_def p)
  have "\<bar>double_of q - q\<bar> = \<bar>of_int (round_even y) - y\<bar> * (1 / 2 ^ s)"
    by (subst q, subst d) (simp add: abs_mult left_diff_distrib [symmetric] del: times_divide_eq_right)
  also have "\<dots> \<le> (1 / 2) * (1 / 2 ^ s)"
    using round_even_close [of y] by (intro mult_right_mono) simp_all
  also have "\<dots> \<le> (1 / 2) * (1 / 2 ^ 49)"
  proof -
    have "(2::rat) ^ 49 \<le> 2 ^ s"
      using s49 by (intro power_increasing) simp_all
    then have "1 / (2::rat) ^ s \<le> 1 / 2 ^ 49"
      by (intro divide_left_mono) simp_all
    then show ?thesis by simp
  qed
  finally show ?thesis by simp
qed

lemma round_double_finite:
  assumes "1 \<le> q" and "q < 16"
  shows "round_double q = Finite (double_of q)"
proof -
  have "\<bar>double_of q - q\<bar> \<le> 1"
    using double_of_close [OF assms] by (rule order_trans) simp
  with assms have "\<bar>double_of q\<bar> < 17"
    by linarith
  then have "\<bar>double_of q\<bar> < 2 ^ 1024"
    by (rule less_trans) simp
  then show ?thesis
    by (simp add: round_double_def)
qed

lemma score_of_spec: "score_of r = spec_score (sentiment r)"
  by (cases "sentiment r") (simp_all add: score_of_def)

lemma exact_average_scores:
  "exact_average rs = sum_list (sql_scores rs) / of_nat (length rs)"
proof -
  have "map score_of rs = map (\<lambda>r. spec_score (sentiment r)) rs"
    by (simp add: score_of_spec)
  then show ?thesis
    by (simp only: exact_average_def sql_scores_def)
qed

lemma scores_integral:
  "\<forall>x \<in> set (sql_scores rs). \<exists>k. x = of_int k \<and> 0 \<le> k \<and> k \<le> 8"
proof
  fix x assume "x \<in> set (sql_scores rs)"
  then obtain r where "x = score_of r"
    by (auto simp add: sql_scores_def)
  then consider "x = of_int 8" | "x = of_int 5" | "x = of_int 2"
    by (auto simp add: score_of_def split: if_splits)
  then show "\<exists>k. x = of_int k \<and> 0 \<le> k \<and> k \<le> 8"
    by cases (rule exI [of _ 8], simp, rule exI [of _ 5], simp, rule exI [of _ 2], simp)
qed

lemma scores_sum:
  "\<exists>S. sum_list (sql_scores rs) = of_int S \<and> 2 * int (length rs) \<le> S \<and> S \<le> 8 * int (length rs)"
proof (induction rs)
  case Nil
  show ?case by (simp add: sql_scores_def)
next
  case (Cons r rs)
  then obtain S where S: "sum_list (sql_scores rs) = of_int S" "2 * int (length rs) \<le> S"
    "S \<le> 8 * int (length rs)"
    by blast
  obtain k :: int where k: "score_of r = of_int k" "2 \<le> k" "k \<le> 8"
  proof -
    have "score_of r = of_int 8 \<or> score_of r = of_int 5 \<or> score_of r = of_int 2"
      by (simp add: score_of_def)
    then show ?thesis
      using that [of 8] that [of 5] that [of 2] by auto
  qed
  have "sum_list (sql_scores (r # rs)) = of_int (k + S)"
    using S(1) k(1) by (simp add: sql_scores_def)
  moreover have "2 * int (length (r # rs)) \<le> k + S" "k + S \<le> 8 * int (length (r # rs))"
    using S(2,3) k(2,3) by simp_all
  ultimately show ?case
    by blast
qed

text \<open>The digit that \<open>toFixed(1)\<close> chooses for the double of a quotient is a nearest one
  for the quotient itself, as long as the divisor stays below \<open>2 ^ 45\<close>.\<close>

lemma nearest_tenth:
  fixes S N :: int and x :: rat
  assumes "0 < N" and "20 * N < 2 ^ 50"
    and "\<bar>x - of_int S / of_int N\<bar> \<le> 1 / 2 ^ 50"
  shows "\<bar>of_int \<lfloor>10 * x + 1 / 2\<rfloor> / 10 - of_int S / of_int N\<bar> \<le> (1::rat) / 20"
proof -
  define M where "M = \<lfloor>10 * x + 1 / 2\<rfloor>"
  define q :: rat where "q = of_int S / of_int N"
  have Npos: "(0::rat) < of_int N"
    using assms(1) by simp
  have "of_int M \<le> 10 * x + 1 / 2" "10 * x + 1 / 2 < of_int M + 1"
    unfolding M_def by linarith+
  then have m: "\<bar>of_int M - 10 * x\<bar> \<le> 1 / 2"
    by linarith
  have "\<bar>of_int M - 10 * q\<bar> = \<bar>(of_int M - 10 * x) + 10 * (x - q)\<bar>"
    by (simp add: algebra_simps)
  also have "\<dots> \<le> \<bar>of_int M - 10 * x\<bar> + \<bar>10 * (x - q)\<bar>"
    by (rule abs_triangle_ineq)
  also have "\<dots> = \<bar>of_int M - 10 * x\<bar> + 10 * \<bar>x - q\<bar>"
    by (simp only: abs_mult abs_numeral)
  also have "\<dots> \<le> 1 / 2 + 10 * (1 / 2 ^ 50)"
    using m assms(3) by (simp add: q_def)
  finally have close: "\<bar>of_int M - 10 * q\<bar> \<le> 1 / 2 + 10 / 2 ^ 50"
    by simp
  have scaled: "(of_int (2 * N * M - 20 * S) :: rat) = 2 * of_int N * (of_int M - 10 * q)"
    using Npos by (simp add: q_def field_simps)
  have absN: "\<bar>2 * (of_int N :: rat) * (of_int M - 10 * q)\<bar> = 2 * of_int N * \<bar>of_int M - 10 * q\<bar>"
    using Npos by (simp add: abs_mult)
  have "\<bar>(of_int (2 * N * M - 20 * S) :: rat)\<bar> = \<bar>2 * of_int N * (of_int M - 10 * q)\<bar>"
    by (simp only: scaled)
  also have "\<dots> = 2 * of_int N * \<bar>of_int M - 10 * q\<bar>"
    by (rule absN)
  also have "\<dots> \<le> 2 * of_int N * (1 / 2 + 10 / 2 ^ 50)"
    using close Npos by (intro mult_left_mono) simp_all
  also have "\<dots> = of_int N + of_int (20 * N) / 2 ^ 50"
    by (simp add: field_simps)
  also have "\<dots> < of_int N + 1"
  proof -
    have "(of_int (20 * N) :: rat) < of_int (2 ^ 50)"
      using assms(2) by (simp only: of_int_less_iff)
    then have "(of_int (20 * N) :: rat) / 2 ^ 50 < 1"
      by simp
    then show ?thesis by simp
  qed
  finally have "\<bar>(of_int (2 * N * M - 20 * S) :: rat)\<bar> < of_int (N + 1)"
    by simp
  then have "(of_int \<bar>2 * N * M - 20 * S\<bar> :: rat) < of_int (N + 1)"
    by (simp only: of_int_abs)
  then have "\<bar>2 * N * M - 20 * S\<bar> < N + 1"
    by (simp only: of_int_less_iff)
  then have "\<bar>2 * N * M - 20 * S\<bar> \<le> N"
    by simp
  then have "(of_int \<bar>2 * N * M - 20 * S\<bar> :: rat) \<le> of_int N"
    by (simp only: of_int_le_iff)
  then have "2 * of_int N * \<bar>of_int M - 10 * q\<bar> \<le> (of_int N :: rat)"
    by (simp only: of_int_abs scaled absN)
  then have "\<bar>of_int M - 10 * q\<bar> \<le> 1 / 2"
    using Npos by (simp add: field_simps)
  then have "\<bar>of_int M / 10 - q\<bar> \<le> 1 / 20"
    by (simp add: abs_le_iff field_simps)
  then show ?thesis
    by (simp add: M_def q_def)
qed

lemma avgScore_double:
  assumes "rs \<noteq> []" and "length rs < 2 ^ 32"
  shows "avgScore (sql_scores rs) = toFixed1 (Finite (double_of (exact_average rs)))"
proof -
  define N where "N = int (length rs)"
  have Npos: "0 < N"
    using assms(1) by (simp add: N_def)
  have "foldl (\<lambda>sum score. dadd sum (Finite score)) (Finite (of_int 0)) (sql_scores rs)
      = Finite (of_int 0 + sum_list (sql_scores rs))"
  proof (rule foldl_dadd_exact)
    show "\<forall>x \<in> set (sql_scores rs). \<exists>k. x = of_int k \<and> 0 \<le> k \<and> k \<le> 8"
      by (rule scores_integral)
    show "(0::int) \<le> 0" by simp
    have "int (length (sql_scores rs)) < 2 ^ 32"
      using assms(2) by (simp add: sql_scores_def)
    then show "0 + 8 * int (length (sql_scores rs)) < 2 ^ 53"
      by simp
  qed
  then have sum: "foldl (\<lambda>sum score. dadd sum (Finite score)) (Finite 0) (sql_scores rs)
      = Finite (sum_list (sql_scores rs))"
    by simp
  obtain S where S: "sum_list (sql_scores rs) = of_int S" "2 * N \<le> S" "S \<le> 8 * N"
    using scores_sum [of rs] by (auto simp add: N_def)
  have avg: "exact_average rs = of_int S / of_int N"
    using S(1) by (simp add: exact_average_scores N_def)
  have "(of_int (2 * N) :: rat) \<le> of_int S" "(of_int S :: rat) \<le> of_int (8 * N)"
    using S(2,3) by (simp_all only: of_int_le_iff)
  then have range: "1 \<le> exact_average rs" "exact_average rs < 16"
    using Npos by (simp_all add: avg field_simps)
  have len: "length (sql_scores rs) = length rs"
    by (simp add: sql_scores_def)
  have "ddiv (Finite (sum_list (sql_scores rs))) (Finite (of_nat (length rs)))
      = round_double (exact_average rs)"
    using assms(1) by (simp add: exact_average_scores)
  also have "\<dots> = Finite (double_of (exact_average rs))"
    using range by (rule round_double_finite)
  finally have quotient: "ddiv (Finite (sum_list (sql_scores rs))) (Finite (of_nat (length rs)))
      = Finite (double_of (exact_average rs))" .
  have "avgScore (sql_scores rs)
      = toFixed1 (ddiv (foldl (\<lambda>sum score. dadd sum (Finite score)) (Finite 0) (sql_scores rs))
          (Finite (of_nat (length (sql_scores rs)))))"
    using assms(1) by (simp add: avgScore_def len)
  then show ?thesis
    by (simp only: sum len quotient)
qed

lemma getStats_miss:
  assumes "\<forall>i < 6. fault ev (length (trace w) + i) = None"
    and "\<not> truthy (map_option fst (map_of (kv w) ''stats''))"
  shows "fst (getStats ev hs w)
     = Inr (json_response (JSON_stringify
         (JObj [(''total'', JNum (int (length (rows w)))),
                (''avgSentiment'', JStr (avgScore (sql_scores (rows w)))),
                (''unresolved'', JNum (int (sql_unresolved (rows w)))),
                (''repeatUsers'', JNum (int (sql_repeat_count (rows w))))])) hs)"
proof -
  have f: "fault ev (length (trace w)) = None" "fault ev (Suc (length (trace w))) = None"
    "fault ev (Suc (Suc (length (trace w)))) = None"
    "fault ev (Suc (Suc (Suc (length (trace w))))) = None"
    "fault ev (Suc (Suc (Suc (Suc (length (trace w)))))) = None"
    "fault ev (Suc (Suc (Suc (Suc (Suc (length (trace w))))))) = None"
    using assms(1) [rule_format, of 0] assms(1) [rule_format, of 1] assms(1) [rule_format, of 2]
      assms(1) [rule_format, of 3] assms(1) [rule_format, of 4] assms(1) [rule_format, of 5]
    by (simp_all add: eval_nat_numeral)
  show ?thesis
    using assms(2) f by (simp add: getStats_def io_defs Let_def stats_json_def sql_total_def)
qed

lemma round_double_numerals:
  "round_double 2 = Finite 2" "round_double 5 = Finite 5" "round_double 8 = Finite 8"
  "round_double 10 = Finite 10"
  using round_double_int_exact [of 2] round_double_int_exact [of 5]
    round_double_int_exact [of 8] round_double_int_exact [of 10]
  by simp_all

lemma half_floors:
  "\<lfloor>(101::rat) / 2\<rfloor> = 50" "\<lfloor>(161::rat) / 2\<rfloor> = 80" "\<lfloor>(41::rat) / 2\<rfloor> = 20"
  by (rule floor_unique; simp)+

lemma digit_chars:
  "digit_char 0 = CHR ''0''" "digit_char 2 = CHR ''2''" "digit_char 5 = CHR ''5''"
  "digit_char 8 = CHR ''8''"
  by code_simp+

lemma small_averages:
  "avgScore [8, 2] = ''5.0''" "avgScore [8] = ''8.0''" "avgScore [5] = ''5.0''"
  "avgScore [2] = ''2.0''"
  by (simp_all add: avgScore_def round_double_numerals half_floors show_nat.simps digit_chars
      Let_def)

text \<open>
  C5. For a non-empty table (of fewer than \<open>2 ^ 32\<close> records, the most a JavaScript array
  holds) the average string is the one-decimal print of the double nearest to the exact
  average, over all records, resolved or not, of the score that is 8 for positive, 5 for
  neutral and 2 for anything else, unset included: it reads \<open>n / 10\<close> for a natural number
  \<open>n\<close> with \<open>n / 10\<close> no further than \<open>1 / 20\<close> from the exact average. For one positive
  and one negative record it is "5.0"; for a single record it is "8.0" when the record is
  positive, "5.0" when it is neutral and "2.0" otherwise. On a cache miss with no call
  rejecting, \<open>getStats\<close> answers with this string under \<open>avgSentiment\<close>.
\<close>

theorem avgSentiment_is_average:
  assumes "rs \<noteq> []" and "length rs < 2 ^ 32"
  shows "(\<exists>n. avgScore (sql_scores rs) = show_nat (n div 10) @ ''.'' @ show_nat (n mod 10)
            \<and> \<bar>of_nat n / 10 - exact_average rs\<bar> \<le> 1 / 20)
       \<and> avgScore (sql_scores rs) = toFixed1 (round_double (exact_average rs))
       \<and> (sentiment p = Some ''positive'' \<and> sentiment q = Some ''negative''
            \<longrightarrow> avgScore (sql_scores [p, q]) = ''5.0'')
       \<and> avgScore (sql_scores [p])
           = (if sentiment p = Some ''positive'' then ''8.0''
              else if sentiment p = Some ''neutral'' then ''5.0'' else ''2.0'')
       \<and> ((\<forall>i < 6. fault ev (length (trace w) + i) = None)
            \<and> \<not> truthy (map_option fst (map_of (kv w) ''stats'')) \<and> rows w = rs
            \<longrightarrow> fst (getStats ev hs w)
                = Inr (json_response (JSON_stringify
                    (JObj [(''total'', JNum (int (length rs))),
                           (''avgSentiment'', JStr (avgScore (sql_scores rs))),
                           (''unresolved'', JNum (int (sql_unresolved rs))),
                           (''repeatUsers'', JNum (int (sql_repeat_count rs)))])) hs))"
proof -
  define N where "N = int (length rs)"
  have Npos: "0 < N" and Nsmall: "N < 2 ^ 32"
    using assms by (simp_all add: N_def)
  obtain S where S: "sum_list (sql_scores rs) = of_int S" "2 * N \<le> S" "S \<le> 8 * N"
    using scores_sum [of rs] by (auto simp add: N_def)
  have avg: "exact_average rs = of_int S / of_int N"
    using S(1) by (simp add: exact_average_scores N_def)
  have lo: "2 \<le> exact_average rs"
  proof -
    have "(of_int (2 * N) :: rat) \<le> of_int S"
      using S(2) by (simp only: of_int_le_iff)
    then show ?thesis
      using Npos by (simp add: avg field_simps)
  qed
  have hi: "exact_average rs \<le> 8"
  proof -
    have "(of_int S :: rat) \<le> of_int (8 * N)"
      using S(3) by (simp only: of_int_le_iff)
    then show ?thesis
      using Npos by (simp add: avg field_simps)
  qed
  define x where "x = double_of (exact_average rs)"
  have rd: "round_double (exact_average rs) = Finite x"
    using lo hi by (simp add: x_def round_double_finite)
  have close: "\<bar>x - of_int S / of_int N\<bar> \<le> 1 / 2 ^ 50"
    using double_of_close [of "exact_average rs"] lo hi by (simp add: x_def avg)
  have xpos: "0 \<le> x"
  proof -
    have "(1::rat) / 2 ^ 50 \<le> 1"
      by simp
    with close lo show ?thesis
      unfolding avg [symmetric] by linarith
  qed
  define n where "n = nat \<lfloor>10 * x + 1 / 2\<rfloor>"
  have fl: "0 \<le> \<lfloor>10 * x + 1 / 2\<rfloor>"
    using xpos by simp
  have str: "avgScore (sql_scores rs) = toFixed1 (Finite x)"
    using assms by (simp add: avgScore_double x_def)
  have "toFixed1 (Finite x) = show_nat (n div 10) @ ''.'' @ show_nat (n mod 10)"
    using xpos by (simp add: n_def Let_def)
  moreover have "\<bar>of_nat n / 10 - exact_average rs\<bar> \<le> 1 / 20"
  proof -
    have "20 * N < 2 ^ 50"
      using Nsmall by simp
    from nearest_tenth [OF Npos this close]
    have "\<bar>of_int \<lfloor>10 * x + 1 / 2\<rfloor> / 10 - of_int S / of_int N\<bar> \<le> (1::rat) / 20" .
    moreover have "(of_nat n :: rat) = of_int \<lfloor>10 * x + 1 / 2\<rfloor>"
      using fl by (simp add: n_def)
    ultimately show ?thesis
      by (simp add: avg)
  qed
  ultimately have nearest: "\<exists>n. avgScore (sql_scores rs)
        = show_nat (n div 10) @ ''.'' @ show_nat (n mod 10)
      \<and> \<bar>of_nat n / 10 - exact_average rs\<bar> \<le> 1 / 20"
    using str by auto
  have printed: "avgScore (sql_scores rs) = toFixed1 (round_double (exact_average rs))"
    using str rd by simp
  have pair: "avgScore (sql_scores [p, q]) = ''5.0''"
    if "sentiment p = Some ''positive''" "sentiment q = Some ''negative''"
    using that small_averages(1) by (simp add: sql_scores_def score_of_def)
  have single: "avgScore (sql_scores [p])
      = (if sentiment p = Some ''positive'' then ''8.0''
         else if sentiment p = Some ''neutral'' then ''5.0'' else ''2.0'')"
    using small_averages(2,3,4) by (simp add: sql_scores_def score_of_def)
  have served: "fst (getStats ev hs w)
      = Inr (json_response (JSON_stringify
          (JObj [(''total'', JNum (int (length rs))),
                 (''avgSentiment'', JStr (avgScore (sql_scores rs))),
                 (''unresolved'', JNum (int (sql_unresolved rs))),
                 (''repeatUsers'', JNum (int (sql_repeat_count rs)))])) hs)"
    if "\<forall>i < 6. fault ev (length (trace w) + i) = None"
      "\<not> truthy (map_option fst (map_of (kv w) ''stats''))" "rows w = rs"
    using getStats_miss [OF that(1,2), of hs] that(3) by simp
  from nearest printed pair single served show ?thesis
    by blast
qed

theorem avgSentiment_is_average_witness:
  "(\<exists>n. avgScore (sql_scores sample_rows) = show_nat (n div 10) @ ''.'' @ show_nat (n mod 10)
        \<and> \<bar>of_nat n / 10 - exact_average sample_rows\<bar> \<le> 1 / 20)
   \<and> avgScore (sql_scores [sample_row 1 ''A'' None (Some ''positive'') ''2024-04-01 00:00:00'' None,
         sample_row 2 ''B'' None (Some ''negative'') ''2024-04-02 00:00:00''
           (Some ''2024-04-03 00:00:00'')]) = ''5.0''
   \<and> fst (getStats quiet corsHeaders sample_world)
       = Inr (json_response (JSON_stringify
           (JObj [(''total'', JNum (int (length sample_rows))),
                  (''avgSentiment'', JStr (avgScore (sql_scores sample_rows))),
                  (''unresolved'', JNum (int (sql_unresolved sample_rows))),
                  (''repeatUsers'', JNum (int (sql_repeat_count sample_rows)))])) corsHeaders)"
proof -
  have a: "sample_rows \<noteq> []" "length sample_rows < 2 ^ 32"
    by (simp_all add: sample_rows_def)
  have b: "sentiment (sample_row 1 ''A'' None (Some ''positive'') ''2024-04-01 00:00:00'' None)
        = Some ''positive''
      \<and> sentiment (sample_row 2 ''B'' None (Some ''negative'') ''2024-04-02 00:00:00''
          (Some ''2024-04-03 00:00:00'')) = Some ''negative''"
    by (simp add: sample_row_def)
  have c: "(\<forall>i < 6. fault quiet (length (trace sample_world) + i) = None)
      \<and> \<not> truthy (map_option fst (map_of (kv sample_world) ''stats''))
      \<and> rows sample_world = sample_rows"
    by (simp add: quiet_def sample_world_def truthy_def)
  from avgSentiment_is_average [OF a,
      of "sample_row 1 ''A'' None (Some ''positive'') ''2024-04-01 00:00:00'' None"
         "sample_row 2 ''B'' None (Some ''negative'') ''2024-04-02 00:00:00''
           (Some ''2024-04-03 00:00:00'')" quiet sample_world corsHeaders] b c
  show ?thesis by blast
qed

end
